theory Spec2Isabelle
  imports Complex_Main "HOL-Library.Word" "HOL-Library.Monad_Syntax" "HOL-Library.Multiset"
begin

unbundle bit_operations_syntax

section \<open>Elementwise operations on device images (image\_function\_cuda.cu)\<close>

text \<open>
  A shallow embedding of \<^verbatim>\<open>PenguinV/Library/cuda/image_function_cuda.cu\<close>.
  \<^item> \<^verbatim>\<open>uint8_t\<close> and \<^verbatim>\<open>uint32_t\<close> are \<open>8 word\<close> and \<open>32 word\<close>; an \<^verbatim>\<open>int\<close> is kept as
    its 32-bit two's complement pattern and read with \<open>sint\<close>.
  \<^item> Device memory is an explicit store from base pointers to byte buffers; an image holds
    a base pointer, so that two images naming the same buffer alias.
  \<^item> A \<^verbatim>\<open>throw\<close> is the \<open>Inl\<close> of a sum; every function that touches the device takes
    the device state and returns the new one.
\<close>

type_synonym u8 = "8 word"
type_synonym u32 = "32 word"

subsection \<open>Launch configuration\<close>

text \<open>
  \<^verbatim>\<open>getKernelParameters(int & threadsPerBlock, int & blocksPerGrid, uint32_t size)\<close>.
  The parameter \<^verbatim>\<open>size\<close> is written \<open>sz\<close> (\<open>size\<close> is a constant of HOL).
  The two reference parameters are returned as a pair \<open>(threadsPerBlock, blocksPerGrid)\<close>.
  In \<^verbatim>\<open>(size + threadsPerBlock - 1) / threadsPerBlock\<close> the \<^verbatim>\<open>int\<close> operand is converted to
  \<^verbatim>\<open>unsigned\<close>, so the sum, the difference and the quotient are 32-bit unsigned
  operations: \<open>+\<close> and \<open>-\<close> on \<open>32 word\<close> wrap, \<open>div\<close> is the unsigned quotient.
\<close>

definition getKernelParameters :: "u32 \<Rightarrow> 32 word \<times> 32 word" where
  "getKernelParameters sz =
     (if sz < 256 then (sz, 1)
      else (let threadsPerBlock = 256 in
            (threadsPerBlock, (sz + threadsPerBlock - 1) div threadsPerBlock)))"

subsection \<open>Exceptions, runtime status codes and the device\<close>

text \<open>
  Every \<^verbatim>\<open>throw\<close> of the file throws an \<^verbatim>\<open>imageException\<close> built from a string literal.
  \<open>AllocationFailure\<close> is the failure of the device image's constructor, which is declared
  in \<^verbatim>\<open>image_function_cuda.cuh\<close> (see \<open>ImageCuda_new\<close> below).
\<close>

datatype exception = imageException string | AllocationFailure

datatype cudaError =
  cudaSuccess | cudaErrorInvalidValue | cudaErrorInvalidConfiguration | cudaErrorIllegalAddress

text \<open>
  What was asked of the device runtime, in order: an allocation (base pointer, bytes), a
  refused allocation (bytes), a release (base pointer), a kernel launch (kernel name,
  blocksPerGrid, threadsPerBlock) and the two directions of \<^verbatim>\<open>cudaMemcpy\<close> (base pointer,
  offset, bytes).
\<close>

datatype event =
  Malloc nat nat
| MallocFailed nat
| Free nat
| Launch string "32 word" "32 word"
| MemcpyHostToDevice nat nat nat
| MemcpyDeviceToHost nat nat nat

type_synonym devmem = "nat \<rightharpoonup> u8 list"

text \<open>
  The device: its live buffers by base pointer, the next base pointer \<^verbatim>\<open>cudaMalloc\<close> hands
  out, the bytes still free, the contents uninitialised memory happens to have, and the
  trace of requests.
\<close>

record device =
  bufs :: devmem
  next_ptr :: nat
  free_bytes :: nat
  uninit :: "nat \<Rightarrow> u8"
  trace :: "event list"

subsection \<open>The device image handle\<close>

text \<open>
  Modelled from the spec: the class \<^verbatim>\<open>ImageCuda\<close> (\<^verbatim>\<open>BitmapImageCuda<1>\<close>, declared in
  \<^verbatim>\<open>image_function_cuda.cuh\<close>) is not part of the source at hand. The spec gives it the
  attributes \<open>width: u32\<close>, \<open>height: u32\<close> and an owning pointer to \<open>width * height\<close> bytes of
  device memory, null exactly when the image is empty. \<open>data = None\<close> is the null pointer.
\<close>

record ImageCuda =
  width :: u32
  height :: u32
  data :: "nat option"

text \<open>
  Modelled from the spec: \<^verbatim>\<open>empty()\<close> "reports true iff width==0 or height==0".
\<close>

definition empty :: "ImageCuda \<Rightarrow> bool" where
  "empty img \<longleftrightarrow> width img = 0 \<or> height img = 0"

text \<open>
  Modelled from the spec: "construct(width, height) allocates \<open>width*height\<close> bytes of device
  memory or fails with AllocationFailure". The allocation is refused when the device has
  fewer bytes free; the new buffer has the contents uninitialised memory has.
\<close>

definition ImageCuda_new :: "device \<Rightarrow> u32 \<Rightarrow> u32 \<Rightarrow> (exception + ImageCuda) \<times> device" where
  "ImageCuda_new d w h =
     (if w = 0 \<or> h = 0 then (Inr \<lparr>width = w, height = h, data = None\<rparr>, d)
      else (let n = unat w * unat h in
            if free_bytes d < n
            then (Inl AllocationFailure, d\<lparr>trace := trace d @ [MallocFailed n]\<rparr>)
            else (Inr \<lparr>width = w, height = h, data = Some (next_ptr d)\<rparr>,
                  d\<lparr>bufs := (bufs d)(next_ptr d \<mapsto> map (uninit d) [0..<n]),
                    next_ptr := Suc (next_ptr d),
                    free_bytes := free_bytes d - n,
                    trace := trace d @ [Malloc (next_ptr d) n]\<rparr>)))"

text \<open>
  Modelled from the spec: "Destruction releases device memory exactly once". The destructor
  runs when an exception unwinds the allocating form that owns the image.
\<close>

definition ImageCuda_delete :: "device \<Rightarrow> ImageCuda \<Rightarrow> device" where
  "ImageCuda_delete d img =
     (case data img of
        None \<Rightarrow> d
      | Some p \<Rightarrow>
          (case bufs d p of
             None \<Rightarrow> d
           | Some buf \<Rightarrow> d\<lparr>bufs := (bufs d)(p := None),
                           free_bytes := free_bytes d + length buf,
                           trace := trace d @ [Free p]\<rparr>))"

subsection \<open>Device memory accesses of a kernel thread\<close>

text \<open>
  \<^verbatim>\<open>p[i]\<close> for a device pointer \<open>p\<close>. An access through the null pointer, to a buffer that
  is not live or beyond its end has no defined behaviour in the source: it is \<open>None\<close> here.
\<close>

definition load :: "devmem \<Rightarrow> nat option \<Rightarrow> u32 \<Rightarrow> u8 option" where
  "load m p i =
     (case p of
        None \<Rightarrow> None
      | Some b \<Rightarrow>
          (case m b of
             None \<Rightarrow> None
           | Some buf \<Rightarrow> if unat i < length buf then Some (buf ! unat i) else None))"

definition store :: "devmem \<Rightarrow> nat option \<Rightarrow> u32 \<Rightarrow> u8 \<Rightarrow> devmem option" where
  "store m p i v =
     (case p of
        None \<Rightarrow> None
      | Some b \<Rightarrow>
          (case m b of
             None \<Rightarrow> None
           | Some buf \<Rightarrow> if unat i < length buf then Some (m(b \<mapsto> buf[unat i := v])) else None))"

subsection \<open>The CUDA device functions\<close>

text \<open>
  One definition per \<^verbatim>\<open>__global__\<close> function: what one thread does to device memory. The
  built-in variables \<^verbatim>\<open>blockDim.x\<close>, \<^verbatim>\<open>blockIdx.x\<close> and \<^verbatim>\<open>threadIdx.x\<close> are the three arguments
  before the memory; \<^verbatim>\<open>id\<close> is computed in \<^verbatim>\<open>uint32_t\<close>. The operands of \<^verbatim>\<open>-\<close>, \<^verbatim>\<open>&\<close>, \<^verbatim>\<open>|\<close>, \<^verbatim>\<open>^\<close> and
  \<^verbatim>\<open>~\<close> are promoted to \<^verbatim>\<open>int\<close> and the result is narrowed to \<^verbatim>\<open>uint8_t\<close>, which is
  the operation of \<open>8 word\<close>.
\<close>

definition absoluteDifference ::
  "nat option \<Rightarrow> nat option \<Rightarrow> nat option \<Rightarrow> u32 \<Rightarrow> u32 \<Rightarrow> u32 \<Rightarrow> u32 \<Rightarrow> devmem \<Rightarrow> devmem option" where
  "absoluteDifference in1 in2 out sz blockDim blockIdx threadIdx m =
     (let id = blockDim * blockIdx + threadIdx in
      if id < sz then
        do { a \<leftarrow> load m in1 id; b \<leftarrow> load m in2 id;
             store m out id (if a > b then a - b else b - a) }
      else Some m)"

definition bitwiseAnd ::
  "nat option \<Rightarrow> nat option \<Rightarrow> nat option \<Rightarrow> u32 \<Rightarrow> u32 \<Rightarrow> u32 \<Rightarrow> u32 \<Rightarrow> devmem \<Rightarrow> devmem option" where
  "bitwiseAnd in1 in2 out sz blockDim blockIdx threadIdx m =
     (let id = blockDim * blockIdx + threadIdx in
      if id < sz then
        do { a \<leftarrow> load m in1 id; b \<leftarrow> load m in2 id; store m out id (a AND b) }
      else Some m)"

definition bitwiseOr ::
  "nat option \<Rightarrow> nat option \<Rightarrow> nat option \<Rightarrow> u32 \<Rightarrow> u32 \<Rightarrow> u32 \<Rightarrow> u32 \<Rightarrow> devmem \<Rightarrow> devmem option" where
  "bitwiseOr in1 in2 out sz blockDim blockIdx threadIdx m =
     (let id = blockDim * blockIdx + threadIdx in
      if id < sz then
        do { a \<leftarrow> load m in1 id; b \<leftarrow> load m in2 id; store m out id (a OR b) }
      else Some m)"

definition bitwiseXor ::
  "nat option \<Rightarrow> nat option \<Rightarrow> nat option \<Rightarrow> u32 \<Rightarrow> u32 \<Rightarrow> u32 \<Rightarrow> u32 \<Rightarrow> devmem \<Rightarrow> devmem option" where
  "bitwiseXor in1 in2 out sz blockDim blockIdx threadIdx m =
     (let id = blockDim * blockIdx + threadIdx in
      if id < sz then
        do { a \<leftarrow> load m in1 id; b \<leftarrow> load m in2 id; store m out id (a XOR b) }
      else Some m)"

text \<open>
  \<^verbatim>\<open>gammaCorrection\<close>. Thread 0 of every block fills the shared table \<^verbatim>\<open>value[256]\<close> from \<open>a\<close>
  and \<open>gamma\<close> in IEEE-754 arithmetic (\<^verbatim>\<open>pow\<close> on \<^verbatim>\<open>float\<close>, a product and a sum in
  \<^verbatim>\<open>double\<close>, a comparison with 256 and a cast), and every thread reads it after
  \<^verbatim>\<open>__syncthreads()\<close>. The floating-point computation is not modelled: the table the
  threads read is the parameter \<open>lut\<close>.
\<close>

definition gammaCorrection ::
  "(u8 \<Rightarrow> u8) \<Rightarrow> nat option \<Rightarrow> nat option \<Rightarrow> u32 \<Rightarrow> u32 \<Rightarrow> u32 \<Rightarrow> u32 \<Rightarrow> devmem \<Rightarrow> devmem option" where
  "gammaCorrection lut inp out sz blockDim blockIdx threadIdx m =
     (let id = blockDim * blockIdx + threadIdx in
      if id < sz then
        do { a \<leftarrow> load m inp id; store m out id (lut a) }
      else Some m)"

definition invert ::
  "nat option \<Rightarrow> nat option \<Rightarrow> u32 \<Rightarrow> u32 \<Rightarrow> u32 \<Rightarrow> u32 \<Rightarrow> devmem \<Rightarrow> devmem option" where
  "invert inp out sz blockDim blockIdx threadIdx m =
     (let id = blockDim * blockIdx + threadIdx in
      if id < sz then
        do { a \<leftarrow> load m inp id; store m out id (NOT a) }
      else Some m)"

definition maximum ::
  "nat option \<Rightarrow> nat option \<Rightarrow> nat option \<Rightarrow> u32 \<Rightarrow> u32 \<Rightarrow> u32 \<Rightarrow> u32 \<Rightarrow> devmem \<Rightarrow> devmem option" where
  "maximum in1 in2 out sz blockDim blockIdx threadIdx m =
     (let id = blockDim * blockIdx + threadIdx in
      if id < sz then
        do { a \<leftarrow> load m in1 id; b \<leftarrow> load m in2 id; store m out id (if a > b then a else b) }
      else Some m)"

definition minimum ::
  "nat option \<Rightarrow> nat option \<Rightarrow> nat option \<Rightarrow> u32 \<Rightarrow> u32 \<Rightarrow> u32 \<Rightarrow> u32 \<Rightarrow> devmem \<Rightarrow> devmem option" where
  "minimum in1 in2 out sz blockDim blockIdx threadIdx m =
     (let id = blockDim * blockIdx + threadIdx in
      if id < sz then
        do { a \<leftarrow> load m in1 id; b \<leftarrow> load m in2 id; store m out id (if a < b then a else b) }
      else Some m)"

definition subtract ::
  "nat option \<Rightarrow> nat option \<Rightarrow> nat option \<Rightarrow> u32 \<Rightarrow> u32 \<Rightarrow> u32 \<Rightarrow> u32 \<Rightarrow> devmem \<Rightarrow> devmem option" where
  "subtract in1 in2 out sz blockDim blockIdx threadIdx m =
     (let id = blockDim * blockIdx + threadIdx in
      if id < sz then
        do { a \<leftarrow> load m in1 id; b \<leftarrow> load m in2 id; store m out id (if a > b then a - b else 0) }
      else Some m)"

subsection \<open>Kernel launch\<close>

text \<open>
  \<^verbatim>\<open>kernel<<<blocksPerGrid, threadsPerBlock>>>(...)\<close> followed by \<^verbatim>\<open>cudaGetLastError()\<close>.
  The grid is the list of all (\<^verbatim>\<open>blockIdx.x\<close>, \<^verbatim>\<open>threadIdx.x\<close>) pairs, and the threads run
  one after the other in that order. Each thread of the kernels above reads and writes
  index \<^verbatim>\<open>id\<close> only, so the order stands for every interleaving as long as no two threads
  share an \<^verbatim>\<open>id\<close> (lemma \<open>thread_order_irrelevant\<close>: every permutation of the grid leaves
  the same memory). The runtime refuses a launch with an empty grid, an empty block or more
  than 1024 threads per block. A launch in which a thread has no defined behaviour is
  reported as an error and writes nothing here; on valid images of equal dimensions no
  thread is such a thread (lemma \<open>binary_inplace_eq\<close>).
\<close>

fun run_threads :: "('t \<Rightarrow> devmem \<Rightarrow> devmem option) \<Rightarrow> 't list \<Rightarrow> devmem \<Rightarrow> devmem option" where
  "run_threads k [] m = Some m"
| "run_threads k (t # ts) m = (case k t m of None \<Rightarrow> None | Some m' \<Rightarrow> run_threads k ts m')"

definition grid :: "32 word \<Rightarrow> 32 word \<Rightarrow> (u32 \<times> u32) list" where
  "grid gridDim blockDim =
     concat (map (\<lambda>b. map (\<lambda>t. (of_nat b, of_nat t)) [0..<unat blockDim]) [0..<unat gridDim])"

definition run_kernel ::
  "(u32 \<Rightarrow> u32 \<Rightarrow> u32 \<Rightarrow> devmem \<Rightarrow> devmem option) \<Rightarrow> 32 word \<Rightarrow> 32 word \<Rightarrow> devmem \<Rightarrow> devmem option" where
  "run_kernel kern gridDim blockDim m =
     run_threads (\<lambda>(blockIdx, threadIdx). kern blockDim blockIdx threadIdx) (grid gridDim blockDim) m"

definition launch ::
  "string \<Rightarrow> (u32 \<Rightarrow> u32 \<Rightarrow> u32 \<Rightarrow> devmem \<Rightarrow> devmem option) \<Rightarrow> 32 word \<Rightarrow> 32 word \<Rightarrow> device
     \<Rightarrow> cudaError \<times> device" where
  "launch name kern blocksPerGrid threadsPerBlock d =
     (let d1 = d\<lparr>trace := trace d @ [Launch name blocksPerGrid threadsPerBlock]\<rparr> in
      if blocksPerGrid = 0 \<or> threadsPerBlock = 0 \<or> 1024 < threadsPerBlock
      then (cudaErrorInvalidConfiguration, d1)
      else (case run_kernel kern blocksPerGrid threadsPerBlock (bufs d) of
              None \<Rightarrow> (cudaErrorIllegalAddress, d1)
            | Some m \<Rightarrow> (cudaSuccess, d1\<lparr>bufs := m\<rparr>)))"

text \<open>
  The five lines every in-place form ends with: the launch configuration for \<open>sz\<close>
  elements, the launch, and the check of \<^verbatim>\<open>cudaGetLastError()\<close>.
\<close>

definition launch_checked ::
  "string \<Rightarrow> (u32 \<Rightarrow> u32 \<Rightarrow> u32 \<Rightarrow> devmem \<Rightarrow> devmem option) \<Rightarrow> u32 \<Rightarrow> device
     \<Rightarrow> (exception + unit) \<times> device" where
  "launch_checked name kern sz d =
     (let (threadsPerBlock, blocksPerGrid) = getKernelParameters sz;
          (error, d') = launch name kern blocksPerGrid threadsPerBlock d
      in if error \<noteq> cudaSuccess then (Inl (imageException ''Failed to launch CUDA kernel''), d')
         else (Inr (), d'))"

subsection \<open>Validation\<close>

text \<open>The three overloads of \<^verbatim>\<open>ParameterValidation\<close>, by their number of images.\<close>

definition ParameterValidation1 :: "ImageCuda \<Rightarrow> exception + unit" where
  "ParameterValidation1 image1 =
     (if empty image1
      then Inl (imageException ''Bad input parameters in image function'')
      else Inr ())"

definition ParameterValidation2 :: "ImageCuda \<Rightarrow> ImageCuda \<Rightarrow> exception + unit" where
  "ParameterValidation2 image1 image2 =
     (if empty image1 \<or> empty image2 \<or> width image1 \<noteq> width image2
         \<or> height image1 \<noteq> height image2
      then Inl (imageException ''Bad input parameters in image function'')
      else Inr ())"

definition ParameterValidation3 :: "ImageCuda \<Rightarrow> ImageCuda \<Rightarrow> ImageCuda \<Rightarrow> exception + unit" where
  "ParameterValidation3 image1 image2 image3 =
     (if empty image1 \<or> empty image2 \<or> empty image3 \<or> width image1 \<noteq> width image2
         \<or> height image1 \<noteq> height image2 \<or> width image1 \<noteq> width image3
         \<or> height image1 \<noteq> height image3
      then Inl (imageException ''Bad input parameters in image function'')
      else Inr ())"

subsection \<open>The operations\<close>

text \<open>
  Each operation has two overloads. The one that writes into a caller-supplied image is
  named \<open>_inplace\<close> here; the one that returns a new image has the source's name.

  What every allocating form does after validating its inputs: construct \<^verbatim>\<open>out\<close>, call the
  in-place form and return \<^verbatim>\<open>out\<close>. When the in-place form throws, the exception leaves the
  scope of \<^verbatim>\<open>out\<close> and its destructor runs.
\<close>

definition with_output ::
  "device \<Rightarrow> u32 \<Rightarrow> u32 \<Rightarrow> (device \<Rightarrow> ImageCuda \<Rightarrow> (exception + unit) \<times> device)
     \<Rightarrow> (exception + ImageCuda) \<times> device" where
  "with_output d w h body =
     (case ImageCuda_new d w h of
        (Inl e, d1) \<Rightarrow> (Inl e, d1)
      | (Inr out, d1) \<Rightarrow>
          (case body d1 out of
             (Inl e, d2) \<Rightarrow> (Inl e, ImageCuda_delete d2 out)
           | (Inr _, d2) \<Rightarrow> (Inr out, d2)))"

definition AbsoluteDifference_inplace ::
  "device \<Rightarrow> ImageCuda \<Rightarrow> ImageCuda \<Rightarrow> ImageCuda \<Rightarrow> (exception + unit) \<times> device" where
  "AbsoluteDifference_inplace d in1 in2 out =
     (case ParameterValidation3 in1 in2 out of
        Inl e \<Rightarrow> (Inl e, d)
      | Inr _ \<Rightarrow>
          launch_checked ''absoluteDifference''
            (absoluteDifference (data in1) (data in2) (data out) (width out * height out))
            (width out * height out) d)"

definition AbsoluteDifference ::
  "device \<Rightarrow> ImageCuda \<Rightarrow> ImageCuda \<Rightarrow> (exception + ImageCuda) \<times> device" where
  "AbsoluteDifference d in1 in2 =
     (case ParameterValidation2 in1 in2 of
        Inl e \<Rightarrow> (Inl e, d)
      | Inr _ \<Rightarrow>
          with_output d (width in1) (height in1) (\<lambda>d out. AbsoluteDifference_inplace d in1 in2 out))"

definition BitwiseAnd_inplace ::
  "device \<Rightarrow> ImageCuda \<Rightarrow> ImageCuda \<Rightarrow> ImageCuda \<Rightarrow> (exception + unit) \<times> device" where
  "BitwiseAnd_inplace d in1 in2 out =
     (case ParameterValidation3 in1 in2 out of
        Inl e \<Rightarrow> (Inl e, d)
      | Inr _ \<Rightarrow>
          launch_checked ''bitwiseAnd''
            (bitwiseAnd (data in1) (data in2) (data out) (width out * height out))
            (width out * height out) d)"

definition BitwiseAnd ::
  "device \<Rightarrow> ImageCuda \<Rightarrow> ImageCuda \<Rightarrow> (exception + ImageCuda) \<times> device" where
  "BitwiseAnd d in1 in2 =
     (case ParameterValidation2 in1 in2 of
        Inl e \<Rightarrow> (Inl e, d)
      | Inr _ \<Rightarrow>
          with_output d (width in1) (height in1) (\<lambda>d out. BitwiseAnd_inplace d in1 in2 out))"

definition BitwiseOr_inplace ::
  "device \<Rightarrow> ImageCuda \<Rightarrow> ImageCuda \<Rightarrow> ImageCuda \<Rightarrow> (exception + unit) \<times> device" where
  "BitwiseOr_inplace d in1 in2 out =
     (case ParameterValidation3 in1 in2 out of
        Inl e \<Rightarrow> (Inl e, d)
      | Inr _ \<Rightarrow>
          launch_checked ''bitwiseOr''
            (bitwiseOr (data in1) (data in2) (data out) (width out * height out))
            (width out * height out) d)"

definition BitwiseOr ::
  "device \<Rightarrow> ImageCuda \<Rightarrow> ImageCuda \<Rightarrow> (exception + ImageCuda) \<times> device" where
  "BitwiseOr d in1 in2 =
     (case ParameterValidation2 in1 in2 of
        Inl e \<Rightarrow> (Inl e, d)
      | Inr _ \<Rightarrow>
          with_output d (width in1) (height in1) (\<lambda>d out. BitwiseOr_inplace d in1 in2 out))"

definition BitwiseXor_inplace ::
  "device \<Rightarrow> ImageCuda \<Rightarrow> ImageCuda \<Rightarrow> ImageCuda \<Rightarrow> (exception + unit) \<times> device" where
  "BitwiseXor_inplace d in1 in2 out =
     (case ParameterValidation3 in1 in2 out of
        Inl e \<Rightarrow> (Inl e, d)
      | Inr _ \<Rightarrow>
          launch_checked ''bitwiseXor''
            (bitwiseXor (data in1) (data in2) (data out) (width out * height out))
            (width out * height out) d)"

definition BitwiseXor ::
  "device \<Rightarrow> ImageCuda \<Rightarrow> ImageCuda \<Rightarrow> (exception + ImageCuda) \<times> device" where
  "BitwiseXor d in1 in2 =
     (case ParameterValidation2 in1 in2 of
        Inl e \<Rightarrow> (Inl e, d)
      | Inr _ \<Rightarrow>
          with_output d (width in1) (height in1) (\<lambda>d out. BitwiseXor_inplace d in1 in2 out))"

text \<open>
  The arguments \<open>a\<close> and \<open>gamma\<close> of \<^verbatim>\<open>GammaCorrection\<close> are \<^verbatim>\<open>double\<close>s. Of their arithmetic
  the host code uses the comparison with 0 only, which is exact: a finite \<^verbatim>\<open>double\<close> is
  the real number it stands for (both zeros are \<open>Finite 0\<close>), and the comparison is false
  for a NaN.
\<close>

datatype double = Finite real | PlusInfinity | MinusInfinity | NaN

fun less_zero :: "double \<Rightarrow> bool" where
  "less_zero (Finite x) = (x < 0)"
| "less_zero MinusInfinity = True"
| "less_zero PlusInfinity = False"
| "less_zero NaN = False"

text \<open>
  \<open>lut a gamma\<close> is the table the kernel builds from \<open>a\<close> and from \<open>gamma\<close> narrowed to
  \<^verbatim>\<open>float\<close> (see \<open>gammaCorrection\<close>).
\<close>

definition GammaCorrection_inplace ::
  "(double \<Rightarrow> double \<Rightarrow> u8 \<Rightarrow> u8) \<Rightarrow> device \<Rightarrow> ImageCuda \<Rightarrow> ImageCuda \<Rightarrow> double \<Rightarrow> double
     \<Rightarrow> (exception + unit) \<times> device" where
  "GammaCorrection_inplace lut d inp out a gamma =
     (case ParameterValidation2 inp out of
        Inl e \<Rightarrow> (Inl e, d)
      | Inr _ \<Rightarrow>
          if less_zero a \<or> less_zero gamma
          then (Inl (imageException ''Bad input parameters in image function''), d)
          else launch_checked ''gammaCorrection''
                 (gammaCorrection (lut a gamma) (data inp) (data out) (width out * height out))
                 (width out * height out) d)"

definition GammaCorrection ::
  "(double \<Rightarrow> double \<Rightarrow> u8 \<Rightarrow> u8) \<Rightarrow> device \<Rightarrow> ImageCuda \<Rightarrow> double \<Rightarrow> double
     \<Rightarrow> (exception + ImageCuda) \<times> device" where
  "GammaCorrection lut d inp a gamma =
     (case ParameterValidation1 inp of
        Inl e \<Rightarrow> (Inl e, d)
      | Inr _ \<Rightarrow>
          with_output d (width inp) (height inp)
            (\<lambda>d out. GammaCorrection_inplace lut d inp out a gamma))"

definition Invert_inplace ::
  "device \<Rightarrow> ImageCuda \<Rightarrow> ImageCuda \<Rightarrow> (exception + unit) \<times> device" where
  "Invert_inplace d inp out =
     (case ParameterValidation2 inp out of
        Inl e \<Rightarrow> (Inl e, d)
      | Inr _ \<Rightarrow>
          launch_checked ''invert''
            (invert (data inp) (data out) (width out * height out))
            (width out * height out) d)"

definition Invert :: "device \<Rightarrow> ImageCuda \<Rightarrow> (exception + ImageCuda) \<times> device" where
  "Invert d inp =
     (case ParameterValidation1 inp of
        Inl e \<Rightarrow> (Inl e, d)
      | Inr _ \<Rightarrow> with_output d (width inp) (height inp) (\<lambda>d out. Invert_inplace d inp out))"

definition Maximum_inplace ::
  "device \<Rightarrow> ImageCuda \<Rightarrow> ImageCuda \<Rightarrow> ImageCuda \<Rightarrow> (exception + unit) \<times> device" where
  "Maximum_inplace d in1 in2 out =
     (case ParameterValidation3 in1 in2 out of
        Inl e \<Rightarrow> (Inl e, d)
      | Inr _ \<Rightarrow>
          launch_checked ''maximum''
            (maximum (data in1) (data in2) (data out) (width out * height out))
            (width out * height out) d)"

definition Maximum ::
  "device \<Rightarrow> ImageCuda \<Rightarrow> ImageCuda \<Rightarrow> (exception + ImageCuda) \<times> device" where
  "Maximum d in1 in2 =
     (case ParameterValidation2 in1 in2 of
        Inl e \<Rightarrow> (Inl e, d)
      | Inr _ \<Rightarrow>
          with_output d (width in1) (height in1) (\<lambda>d out. Maximum_inplace d in1 in2 out))"

definition Minimum_inplace ::
  "device \<Rightarrow> ImageCuda \<Rightarrow> ImageCuda \<Rightarrow> ImageCuda \<Rightarrow> (exception + unit) \<times> device" where
  "Minimum_inplace d in1 in2 out =
     (case ParameterValidation3 in1 in2 out of
        Inl e \<Rightarrow> (Inl e, d)
      | Inr _ \<Rightarrow>
          launch_checked ''minimum''
            (minimum (data in1) (data in2) (data out) (width out * height out))
            (width out * height out) d)"

definition Minimum ::
  "device \<Rightarrow> ImageCuda \<Rightarrow> ImageCuda \<Rightarrow> (exception + ImageCuda) \<times> device" where
  "Minimum d in1 in2 =
     (case ParameterValidation2 in1 in2 of
        Inl e \<Rightarrow> (Inl e, d)
      | Inr _ \<Rightarrow>
          with_output d (width in1) (height in1) (\<lambda>d out. Minimum_inplace d in1 in2 out))"

definition Subtract_inplace ::
  "device \<Rightarrow> ImageCuda \<Rightarrow> ImageCuda \<Rightarrow> ImageCuda \<Rightarrow> (exception + unit) \<times> device" where
  "Subtract_inplace d in1 in2 out =
     (case ParameterValidation3 in1 in2 out of
        Inl e \<Rightarrow> (Inl e, d)
      | Inr _ \<Rightarrow>
          launch_checked ''subtract''
            (subtract (data in1) (data in2) (data out) (width out * height out))
            (width out * height out) d)"

definition Subtract ::
  "device \<Rightarrow> ImageCuda \<Rightarrow> ImageCuda \<Rightarrow> (exception + ImageCuda) \<times> device" where
  "Subtract d in1 in2 =
     (case ParameterValidation2 in1 in2 of
        Inl e \<Rightarrow> (Inl e, d)
      | Inr _ \<Rightarrow>
          with_output d (width in1) (height in1) (\<lambda>d out. Subtract_inplace d in1 in2 out))"

subsection \<open>Transfer between host and device\<close>

text \<open>
  Modelled from the spec: the host image \<^verbatim>\<open>Bitmap_Image::Image\<close> and
  \<^verbatim>\<open>Image_Function::ParameterValidation\<close> (\<^verbatim>\<open>image_function.h\<close>) are not part of the source at
  hand. The spec gives the host image \<open>width\<close>, \<open>height\<close>, a row stride \<open>rowSize \<ge> width\<close>
  and a pointer to its first sample; its validation "reuses Validation Layer semantics",
  taken here as the rejection of an image without pixels. \<open>data_host\<close> is the memory
  \<^verbatim>\<open>data()\<close> points to, a host pointer is an offset into it.
\<close>

record Image =
  width_host :: u32
  height_host :: u32
  rowSize :: u32
  data_host :: "u8 list"

definition empty_host :: "Image \<Rightarrow> bool" where
  "empty_host img \<longleftrightarrow> width_host img = 0 \<or> height_host img = 0"

definition ParameterValidation_host :: "Image \<Rightarrow> exception + unit" where
  "ParameterValidation_host image1 =
     (if empty_host image1
      then Inl (imageException ''Bad input parameters in image function'')
      else Inr ())"

text \<open>
  \<^verbatim>\<open>cudaMemcpy(dst, src, count, kind)\<close> for the two kinds the file uses; \<^verbatim>\<open>count\<close> is written
  \<open>cnt\<close>. A device pointer is
  a base pointer and an offset. The runtime reports an error, and copies nothing, when
  the bytes asked for do not lie inside the device buffer and the host memory.
\<close>

definition cudaMemcpy_HostToDevice ::
  "device \<Rightarrow> nat option \<Rightarrow> nat \<Rightarrow> u8 list \<Rightarrow> nat \<Rightarrow> nat \<Rightarrow> cudaError \<times> device" where
  "cudaMemcpy_HostToDevice d dst dst_off src src_off cnt =
     (case dst of
        None \<Rightarrow> (cudaErrorInvalidValue, d)
      | Some p \<Rightarrow>
          (case bufs d p of
             None \<Rightarrow> (cudaErrorInvalidValue, d)
           | Some buf \<Rightarrow>
               if dst_off + cnt \<le> length buf \<and> src_off + cnt \<le> length src
               then (cudaSuccess,
                     d\<lparr>bufs := (bufs d)(p \<mapsto> take dst_off buf @ take cnt (drop src_off src)
                                                @ drop (dst_off + cnt) buf),
                       trace := trace d @ [MemcpyHostToDevice p dst_off cnt]\<rparr>)
               else (cudaErrorInvalidValue, d)))"

definition cudaMemcpy_DeviceToHost ::
  "device \<Rightarrow> u8 list \<Rightarrow> nat \<Rightarrow> nat option \<Rightarrow> nat \<Rightarrow> nat \<Rightarrow> cudaError \<times> u8 list \<times> device" where
  "cudaMemcpy_DeviceToHost d dst dst_off src src_off cnt =
     (case src of
        None \<Rightarrow> (cudaErrorInvalidValue, dst, d)
      | Some p \<Rightarrow>
          (case bufs d p of
             None \<Rightarrow> (cudaErrorInvalidValue, dst, d)
           | Some buf \<Rightarrow>
               if src_off + cnt \<le> length buf \<and> dst_off + cnt \<le> length dst
               then (cudaSuccess,
                     take dst_off dst @ take cnt (drop src_off buf) @ drop (dst_off + cnt) dst,
                     d\<lparr>trace := trace d @ [MemcpyDeviceToHost p src_off cnt]\<rparr>)
               else (cudaErrorInvalidValue, dst, d)))"

text \<open>
  The row loop of \<^verbatim>\<open>Convert(const Bitmap_Image::Image & in, ImageCuda & out)\<close>:
  \<^verbatim>\<open>for( ; Y != YEnd; Y += rowSizeIn, cudaY += rowSizeOut )\<close>. \<open>Y\<close> and \<open>YEnd\<close> are offsets from
  \<^verbatim>\<open>in.data()\<close>, \<open>cudaY\<close> is an offset from \<^verbatim>\<open>out.data()\<close>. The loop leaves only when \<open>Y\<close>
  meets \<open>YEnd\<close> or a copy fails, so it is a partial function: \<open>None\<close> is a loop that does
  not return.
\<close>

partial_function (option) Convert_to_device_rows ::
  "Image \<Rightarrow> ImageCuda \<Rightarrow> u32 \<Rightarrow> u32 \<Rightarrow> nat \<Rightarrow> nat \<Rightarrow> nat \<Rightarrow> device
     \<Rightarrow> ((exception + unit) \<times> device) option" where
  "Convert_to_device_rows inp out rowSizeIn rowSizeOut YEnd Y cudaY d =
     (if Y = YEnd then Some (Inr (), d)
      else (case cudaMemcpy_HostToDevice d (data out) cudaY (data_host inp) Y (unat (width out)) of
              (error, d') \<Rightarrow>
                if error \<noteq> cudaSuccess
                then Some (Inl (imageException ''Cannot copy a memory to CUDA device''), d')
                else Convert_to_device_rows inp out rowSizeIn rowSizeOut YEnd
                       (Y + unat rowSizeIn) (cudaY + unat rowSizeOut) d'))"

text \<open>
  \<^verbatim>\<open>Convert(const Bitmap_Image::Image & in, ImageCuda & out)\<close>. The product
  \<^verbatim>\<open>in.height() * rowSizeIn\<close> is a product of two \<^verbatim>\<open>uint32_t\<close>.
\<close>

definition Convert_to_device ::
  "device \<Rightarrow> Image \<Rightarrow> ImageCuda \<Rightarrow> ((exception + unit) \<times> device) option" where
  "Convert_to_device d inp out =
     (case ParameterValidation_host inp of
        Inl e \<Rightarrow> Some (Inl e, d)
      | Inr _ \<Rightarrow>
          (case ParameterValidation1 out of
             Inl e \<Rightarrow> Some (Inl e, d)
           | Inr _ \<Rightarrow>
               if width_host inp \<noteq> width out \<or> height_host inp \<noteq> height out
               then Some (Inl (imageException ''Bad input parameters in image function''), d)
               else (let rowSizeIn = rowSize inp; rowSizeOut = width out;
                         YEnd = unat (height_host inp * rowSizeIn)
                     in Convert_to_device_rows inp out rowSizeIn rowSizeOut YEnd 0 0 d)))"

text \<open>
  The row loop of \<^verbatim>\<open>Convert(const ImageCuda & in, Bitmap_Image::Image & out)\<close>. The host
  image is written row by row, and is returned as it stands when a copy fails.
\<close>

partial_function (option) Convert_from_device_rows ::
  "ImageCuda \<Rightarrow> u32 \<Rightarrow> u32 \<Rightarrow> nat \<Rightarrow> nat \<Rightarrow> nat \<Rightarrow> Image \<Rightarrow> device
     \<Rightarrow> ((exception + unit) \<times> Image \<times> device) option" where
  "Convert_from_device_rows inp rowSizeIn rowSizeOut YEnd Y cudaY out d =
     (if Y = YEnd then Some (Inr (), out, d)
      else (case cudaMemcpy_DeviceToHost d (data_host out) Y (data inp) cudaY (unat (width inp)) of
              (error, bytes, d') \<Rightarrow>
                if error \<noteq> cudaSuccess
                then Some (Inl (imageException ''Cannot copy a memory from CUDA device''),
                           out\<lparr>data_host := bytes\<rparr>, d')
                else Convert_from_device_rows inp rowSizeIn rowSizeOut YEnd
                       (Y + unat rowSizeOut) (cudaY + unat rowSizeIn) (out\<lparr>data_host := bytes\<rparr>) d'))"

definition Convert_from_device ::
  "device \<Rightarrow> ImageCuda \<Rightarrow> Image \<Rightarrow> ((exception + unit) \<times> Image \<times> device) option" where
  "Convert_from_device d inp out =
     (case ParameterValidation1 inp of
        Inl e \<Rightarrow> Some (Inl e, out, d)
      | Inr _ \<Rightarrow>
          (case ParameterValidation_host out of
             Inl e \<Rightarrow> Some (Inl e, out, d)
           | Inr _ \<Rightarrow>
               if width inp \<noteq> width_host out \<or> height inp \<noteq> height_host out
               then Some (Inl (imageException ''Bad input parameters in image function''), out, d)
               else (let rowSizeIn = width inp; rowSizeOut = rowSize out;
                         YEnd = unat (height_host out * rowSizeOut)
                     in Convert_from_device_rows inp rowSizeIn rowSizeOut YEnd 0 0 out d)))"

subsection \<open>Valid images and their pixels\<close>

text \<open>
  The invariant of the device: no buffer lives at a base pointer that has not been handed
  out yet. A valid device image is not empty and owns a live buffer of \<open>width * height\<close>
  bytes, the product of the two numbers: the images the constructor returns. The
  operations compute the element count as the \<^verbatim>\<open>uint32_t\<close> product \<^verbatim>\<open>width() * height()\<close>,
  which is the number of pixels only when that number is below \<open>2^32\<close>.
\<close>

definition valid_device :: "device \<Rightarrow> bool" where
  "valid_device d \<longleftrightarrow> (\<forall>p. next_ptr d \<le> p \<longrightarrow> bufs d p = None)"

definition valid_image :: "device \<Rightarrow> ImageCuda \<Rightarrow> bool" where
  "valid_image d img \<longleftrightarrow>
     width img \<noteq> 0 \<and> height img \<noteq> 0 \<and>
     (case data img of
        None \<Rightarrow> False
      | Some p \<Rightarrow>
          (case bufs d p of
             None \<Rightarrow> False
           | Some buf \<Rightarrow> length buf = unat (width img) * unat (height img)))"

definition pixels :: "device \<Rightarrow> ImageCuda \<Rightarrow> u8 list" where
  "pixels d img =
     (case data img of
        None \<Rightarrow> []
      | Some p \<Rightarrow> (case bufs d p of None \<Rightarrow> [] | Some buf \<Rightarrow> buf))"

text \<open>
  A valid host image is not empty, its rows are at least as long as its width, and its
  memory holds \<open>height\<close> rows of \<open>rowSize\<close> bytes. The pixel in row \<open>r\<close> and column \<open>c\<close>
  is the byte at \<open>r * rowSize + c\<close>.
\<close>

definition valid_host :: "Image \<Rightarrow> bool" where
  "valid_host img \<longleftrightarrow>
     width_host img \<noteq> 0 \<and> height_host img \<noteq> 0 \<and> width_host img \<le> rowSize img \<and>
     length (data_host img) = unat (height_host img) * unat (rowSize img)"

definition pixel_host :: "Image \<Rightarrow> nat \<Rightarrow> nat \<Rightarrow> u8" where
  "pixel_host img r c = data_host img ! (r * unat (rowSize img) + c)"

subsection \<open>The common shape of the kernels and of the in-place forms\<close>

text \<open>
  Seven kernels differ in the function of the two samples only, and two read one input.
  \<open>binary_kernel f\<close> is what a thread with the given \<^verbatim>\<open>id\<close> does; the lemmas below show
  that every kernel is an instance of it.
\<close>

definition binary_kernel ::
  "(u8 \<Rightarrow> u8 \<Rightarrow> u8) \<Rightarrow> nat option \<Rightarrow> nat option \<Rightarrow> nat option \<Rightarrow> u32 \<Rightarrow> u32 \<Rightarrow> devmem
     \<Rightarrow> devmem option" where
  "binary_kernel f in1 in2 out sz i m =
     (if i < sz then
        do { a \<leftarrow> load m in1 i; b \<leftarrow> load m in2 i; store m out i (f a b) }
      else Some m)"

definition binary_inplace ::
  "string \<Rightarrow> (u8 \<Rightarrow> u8 \<Rightarrow> u8) \<Rightarrow> device \<Rightarrow> ImageCuda \<Rightarrow> ImageCuda \<Rightarrow> ImageCuda
     \<Rightarrow> (exception + unit) \<times> device" where
  "binary_inplace name f d in1 in2 out =
     (case ParameterValidation3 in1 in2 out of
        Inl e \<Rightarrow> (Inl e, d)
      | Inr _ \<Rightarrow>
          launch_checked name
            (\<lambda>blockDim blockIdx threadIdx.
               binary_kernel f (data in1) (data in2) (data out) (width out * height out)
                 (blockDim * blockIdx + threadIdx))
            (width out * height out) d)"

definition binary_alloc ::
  "string \<Rightarrow> (u8 \<Rightarrow> u8 \<Rightarrow> u8) \<Rightarrow> device \<Rightarrow> ImageCuda \<Rightarrow> ImageCuda
     \<Rightarrow> (exception + ImageCuda) \<times> device" where
  "binary_alloc name f d in1 in2 =
     (case ParameterValidation2 in1 in2 of
        Inl e \<Rightarrow> (Inl e, d)
      | Inr _ \<Rightarrow>
          with_output d (width in1) (height in1) (\<lambda>d out. binary_inplace name f d in1 in2 out))"

definition unary_inplace ::
  "string \<Rightarrow> (u8 \<Rightarrow> u8) \<Rightarrow> device \<Rightarrow> ImageCuda \<Rightarrow> ImageCuda \<Rightarrow> (exception + unit) \<times> device" where
  "unary_inplace name g d inp out = binary_inplace name (\<lambda>a b. g a) d inp inp out"

definition unary_alloc ::
  "string \<Rightarrow> (u8 \<Rightarrow> u8) \<Rightarrow> device \<Rightarrow> ImageCuda \<Rightarrow> (exception + ImageCuda) \<times> device" where
  "unary_alloc name g d inp = binary_alloc name (\<lambda>a b. g a) d inp inp"

text \<open>
  The contents of the output buffer after the threads with \<^verbatim>\<open>id\<close> below \<open>k\<close> have run.
\<close>

definition progress :: "(u8 \<Rightarrow> u8 \<Rightarrow> u8) \<Rightarrow> u8 list \<Rightarrow> u8 list \<Rightarrow> u8 list \<Rightarrow> nat \<Rightarrow> u8 list" where
  "progress f A B Z k = map (\<lambda>i. if i < k then f (A ! i) (B ! i) else Z ! i) [0..<length Z]"

text \<open>
  The contents of the output buffer after the threads whose \<^verbatim>\<open>id\<close> is in \<open>S\<close> have run, in
  whatever order.
\<close>

definition done_at :: "(u8 \<Rightarrow> u8 \<Rightarrow> u8) \<Rightarrow> u8 list \<Rightarrow> u8 list \<Rightarrow> u8 list \<Rightarrow> nat set \<Rightarrow> u8 list" where
  "done_at f A B Z S = map (\<lambda>i. if i \<in> S then f (A ! i) (B ! i) else Z ! i) [0..<length Z]"

text \<open>The two exceptions of the operations.\<close>

abbreviation (input) bad_input :: exception where
  "bad_input \<equiv> imageException ''Bad input parameters in image function''"

abbreviation (input) launch_failed :: exception where
  "launch_failed \<equiv> imageException ''Failed to launch CUDA kernel''"

subsection \<open>The state of a transfer after some rows\<close>

text \<open>
  \<open>copy_rows cnt dstStride srcStride src dst k\<close> is the destination memory after the
  first \<open>k\<close> row copies of a \<^verbatim>\<open>Convert\<close> loop: row \<open>r\<close> moves \<open>cnt\<close> bytes from offset
  \<open>r * srcStride\<close> of the source to offset \<open>r * dstStride\<close> of the destination. The three
  definitions after it are the device and the host image at that point of the two loops.
\<close>

primrec copy_rows :: "nat \<Rightarrow> nat \<Rightarrow> nat \<Rightarrow> u8 list \<Rightarrow> u8 list \<Rightarrow> nat \<Rightarrow> u8 list" where
  "copy_rows cnt dstStride srcStride src dst 0 = dst"
| "copy_rows cnt dstStride srcStride src dst (Suc k) =
     (let cur = copy_rows cnt dstStride srcStride src dst k
      in take (k * dstStride) cur @ take cnt (drop (k * srcStride) src)
           @ drop (k * dstStride + cnt) cur)"

definition device_after_rows :: "device \<Rightarrow> nat \<Rightarrow> nat \<Rightarrow> nat \<Rightarrow> u8 list \<Rightarrow> u8 list \<Rightarrow> nat \<Rightarrow> device" where
  "device_after_rows d p W RS src buf k =
     d\<lparr>bufs := (bufs d)(p \<mapsto> copy_rows W W RS src buf k),
       trace := trace d @ map (\<lambda>r. MemcpyHostToDevice p (r * W) W) [0..<k]\<rparr>"

definition host_after_rows :: "Image \<Rightarrow> nat \<Rightarrow> nat \<Rightarrow> u8 list \<Rightarrow> nat \<Rightarrow> Image" where
  "host_after_rows out W RS buf k = out\<lparr>data_host := copy_rows W RS W buf (data_host out) k\<rparr>"

definition device_after_reads :: "device \<Rightarrow> nat \<Rightarrow> nat \<Rightarrow> nat \<Rightarrow> device" where
  "device_after_reads d p W k =
     d\<lparr>trace := trace d @ map (\<lambda>r. MemcpyDeviceToHost p (r * W) W) [0..<k]\<rparr>"

subsection \<open>A device and images for the examples\<close>

text \<open>
  A device with four live buffers: the 3 x 1 images \<open>[10, 20, 30]\<close> and \<open>[255, 0, 170]\<close>,
  a 1 x 1 image and a 2 x 2 image; an image without pixels; and a table for
  \<open>GammaCorrection\<close> that maps every sample to itself.
\<close>

definition dev1 :: device where
  "dev1 = \<lparr>bufs = [0 \<mapsto> [10, 20, 30], 1 \<mapsto> [255, 0, 170], 2 \<mapsto> [7], 3 \<mapsto> [0, 0, 0, 0]],
            next_ptr = 4, free_bytes = 100, uninit = (\<lambda>_. 0), trace = []\<rparr>"

definition imgA :: ImageCuda where
  "imgA = \<lparr>width = 3, height = 1, data = Some 0\<rparr>"

definition imgB :: ImageCuda where
  "imgB = \<lparr>width = 3, height = 1, data = Some 1\<rparr>"

definition imgC :: ImageCuda where
  "imgC = \<lparr>width = 1, height = 1, data = Some 2\<rparr>"

definition imgD :: ImageCuda where
  "imgD = \<lparr>width = 2, height = 2, data = Some 3\<rparr>"

definition img0 :: ImageCuda where
  "img0 = \<lparr>width = 0, height = 0, data = None\<rparr>"

definition lut_id :: "double \<Rightarrow> double \<Rightarrow> u8 \<Rightarrow> u8" where
  "lut_id a gamma x = x"

text \<open>
  Two host images of 2 x 2 pixels: one with a padding byte after each row, one without.
\<close>

definition hostP :: Image where
  "hostP = \<lparr>width_host = 2, height_host = 2, rowSize = 3, data_host = [1, 2, 99, 3, 4, 98]\<rparr>"

definition hostQ :: Image where
  "hostQ = \<lparr>width_host = 2, height_host = 2, rowSize = 2, data_host = [0, 0, 0, 0]\<rparr>"

text \<open>
  A device with images of 65537 x 65537 pixels, whose \<^verbatim>\<open>uint32_t\<close> element count is 131073,
  and an image of 65535 x 65537 pixels; a host image of 65535 x 65537 pixels with one
  padding byte after each row, and a second one to receive a transfer.
\<close>

definition devBig :: device where
  "devBig = \<lparr>bufs = [0 \<mapsto> replicate (65537 * 65537) 5, 1 \<mapsto> replicate (65537 * 65537) 3,
                      2 \<mapsto> replicate (65537 * 65537) 9, 3 \<mapsto> replicate (65535 * 65537) 0],
              next_ptr = 4, free_bytes = 2 ^ 34, uninit = (\<lambda>_. 0), trace = []\<rparr>"

definition bigA :: ImageCuda where
  "bigA = \<lparr>width = 65537, height = 65537, data = Some 0\<rparr>"

definition bigB :: ImageCuda where
  "bigB = \<lparr>width = 65537, height = 65537, data = Some 1\<rparr>"

definition bigC :: ImageCuda where
  "bigC = \<lparr>width = 65537, height = 65537, data = Some 2\<rparr>"

definition wideD :: ImageCuda where
  "wideD = \<lparr>width = 65535, height = 65537, data = Some 3\<rparr>"

definition hostBig :: Image where
  "hostBig = \<lparr>width_host = 65535, height_host = 65537, rowSize = 65536,
               data_host = replicate (65537 * 65536) 7\<rparr>"

definition hostBack :: Image where
  "hostBack = \<lparr>width_host = 65535, height_host = 65537, rowSize = 65536,
                data_host = replicate (65537 * 65536) 1\<rparr>"

subsection \<open>Properties of the launch configuration\<close>

lemma getKernelParameters_small:
  "sz < 256 \<Longrightarrow> getKernelParameters sz = (sz, 1)"
  by (simp add: getKernelParameters_def)

lemma getKernelParameters_large:
  assumes "256 \<le> unat sz" and "unat sz \<le> 2 ^ 32 - 256"
  shows "getKernelParameters sz = (256, of_nat ((unat sz + 255) div 256))"
proof -
  have nl: "\<not> sz < 256"
    using assms(1) by (simp add: word_less_nat_alt)
  have "unat (sz + 256 - 1) = unat sz + 255"
    using assms(2) by (simp add: unat_word_ariths unat_sub_if')
  hence "unat ((sz + 256 - 1) div 256) = (unat sz + 255) div 256"
    by (simp add: unat_div)
  moreover have "(unat sz + 255) div 256 < 4294967296"
    using assms(2) by simp
  ultimately have "(sz + 256 - 1) div 256 = of_nat ((unat sz + 255) div 256)"
    by (simp add: word_unat_eq_iff unat_of_nat)
  thus ?thesis
    using nl by (simp add: getKernelParameters_def)
qed



subsection \<open>The threads of a grid\<close>

lemma run_threads_append:
  "run_threads k (xs @ ys) m =
     (case run_threads k xs m of None \<Rightarrow> None | Some m' \<Rightarrow> run_threads k ys m')"
  by (induction xs arbitrary: m) (auto split: option.splits)

lemma run_threads_map:
  "run_threads k (map f ts) m = run_threads (\<lambda>t. k (f t)) ts m"
  by (induction ts arbitrary: m) (auto split: option.splits)

lemma upt_block: "[0..<Suc G * B] = [0..<G * B] @ map (\<lambda>t. G * B + t) [0..<B]"
proof -
  have "[0..<G * B + B] = [0..<G * B] @ [G * B..<G * B + B]"
    by (rule upt_add_eq_append) simp
  moreover have "map (\<lambda>t. G * B + t) [0..<B] = [G * B..<G * B + B]"
    using map_add_upt [of "G * B" B] by (simp add: add.commute)
  ultimately show ?thesis
    by (simp add: add.commute)
qed

lemma block_ids:
  "concat (map (\<lambda>b. map (\<lambda>t. (of_nat B :: u32) * of_nat b + of_nat t) [0..<B]) [0..<G]) =
     map of_nat [0..<G * B]"
proof (induction G)
  case 0
  show ?case by simp
next
  case (Suc G)
  have "map (of_nat :: nat \<Rightarrow> u32) [0..<Suc G * B] =
           map of_nat [0..<G * B] @ map (\<lambda>t. of_nat (G * B + t)) [0..<B]"
    by (simp only: upt_block map_append map_map o_def)
  also have "(\<lambda>t. (of_nat (G * B + t) :: u32)) = (\<lambda>t. of_nat B * of_nat G + of_nat t)"
    by (simp only: of_nat_add of_nat_mult mult.commute)
  finally show ?case
    using Suc.IH by simp
qed


lemma grid_ids:
  "map (\<lambda>(blockIdx, threadIdx). blockDim * blockIdx + threadIdx) (grid gridDim blockDim) =
     map of_nat [0..<unat gridDim * unat blockDim]"
proof -
  have "map (\<lambda>(blockIdx, threadIdx). blockDim * blockIdx + threadIdx) (grid gridDim blockDim) =
          concat (map (\<lambda>b. map (\<lambda>t. (of_nat (unat blockDim) :: u32) * of_nat b + of_nat t)
                    [0..<unat blockDim]) [0..<unat gridDim])"
    by (simp add: grid_def map_concat o_def)
  thus ?thesis
    by (simp only: block_ids)
qed


lemma run_threads_pairs:
  "run_threads (\<lambda>(b, t). step (f b t)) ts m = run_threads step (map (\<lambda>(b, t). f b t) ts) m"
  by (induction ts arbitrary: m) (auto split: option.splits)

lemma run_kernel_ids:
  "run_kernel (\<lambda>blockDim blockIdx threadIdx. step (blockDim * blockIdx + threadIdx))
       gridDim blockDim m =
     run_threads step (map of_nat [0..<unat gridDim * unat blockDim]) m"
  unfolding run_kernel_def
  by (simp only: run_threads_pairs [where f = "\<lambda>b t. blockDim * b + t"] grid_ids)


subsection \<open>One thread of a kernel\<close>

lemma unat_of_nat_u32: "N < 2 ^ 32 \<Longrightarrow> unat (of_nat N :: u32) = N"
  by (simp add: unat_of_nat)

lemma binary_kernel_inside:
  assumes "m p1 = Some A" and "m p2 = Some B" and "m po = Some Z"
    and "N < unat sz" and "unat sz \<le> length A" and "unat sz \<le> length B" and "unat sz \<le> length Z"
  shows "binary_kernel f (Some p1) (Some p2) (Some po) sz (of_nat N) m =
           Some (m(po \<mapsto> Z[N := f (A ! N) (B ! N)]))"
proof -
  have "unat sz < 2 ^ 32"
    using unsigned_less [of sz] by simp
  hence N: "unat (of_nat N :: u32) = N"
    using assms(4) by (simp add: unat_of_nat_u32)
  hence "(of_nat N :: u32) < sz"
    using assms(4) by (simp add: word_less_nat_alt)
  thus ?thesis
    using assms N by (simp add: binary_kernel_def load_def store_def)
qed

lemma binary_kernel_outside:
  assumes "unat sz \<le> N" and "N < 2 ^ 32"
  shows "binary_kernel f in1 in2 out sz (of_nat N) m = Some m"
proof -
  have "\<not> (of_nat N :: u32) < sz"
    using assms by (simp add: word_less_nat_alt unat_of_nat_u32)
  thus ?thesis
    by (simp add: binary_kernel_def)
qed

subsection \<open>All threads of a kernel\<close>

lemma progress_0: "progress f A B Z 0 = Z"
  by (simp add: progress_def map_nth)

lemma length_progress: "length (progress f A B Z k) = length Z"
  by (simp add: progress_def)

lemma progress_nth: "i < length Z \<Longrightarrow> progress f A B Z k ! i = (if i < k then f (A ! i) (B ! i) else Z ! i)"
  by (simp add: progress_def)

lemma progress_Suc:
  "k < length Z \<Longrightarrow> (progress f A B Z k)[k := f (A ! k) (B ! k)] = progress f A B Z (Suc k)"
  by (rule nth_equalityI) (auto simp add: length_progress progress_nth nth_list_update less_Suc_eq)

lemma binary_steps:
  assumes "m p1 = Some A" and "m p2 = Some B" and "m po = Some Z"
    and "unat sz \<le> length A" and "unat sz \<le> length B" and "unat sz \<le> length Z"
  shows "N \<le> 2 ^ 32 \<Longrightarrow>
         run_threads (binary_kernel f (Some p1) (Some p2) (Some po) sz) (map of_nat [0..<N]) m =
           Some (m(po \<mapsto> progress f A B Z (min N (unat sz))))"
proof (induction N)
  case 0
  show ?case
    using assms(3) by (simp add: progress_0 map_upd_triv)
next
  case (Suc N)
  let ?ON = "progress f A B Z (min N (unat sz))"
  let ?mN = "m(po \<mapsto> ?ON)"
  have IH: "run_threads (binary_kernel f (Some p1) (Some p2) (Some po) sz) (map of_nat [0..<N]) m =
              Some ?mN"
    by (rule Suc.IH) (use Suc.prems in simp)
  have step: "binary_kernel f (Some p1) (Some p2) (Some po) sz (of_nat N) ?mN =
                Some (m(po \<mapsto> progress f A B Z (min (Suc N) (unat sz))))"
  proof (cases "N < unat sz")
    case True
    let ?A = "if p1 = po then ?ON else A"
    let ?B = "if p2 = po then ?ON else B"
    have NO: "N < length Z"
      using True assms(6) by simp
    have a: "?A ! N = A ! N"
      using assms(1,3) NO by (auto simp add: progress_nth)
    have b: "?B ! N = B ! N"
      using assms(2,3) NO by (auto simp add: progress_nth)
    have "binary_kernel f (Some p1) (Some p2) (Some po) sz (of_nat N) ?mN =
            Some (?mN(po \<mapsto> ?ON[N := f (?A ! N) (?B ! N)]))"
      by (rule binary_kernel_inside) (use assms True in \<open>auto simp add: length_progress\<close>)
    moreover have "?ON[N := f (A ! N) (B ! N)] = progress f A B Z (min (Suc N) (unat sz))"
      using True NO by (simp add: min_def progress_Suc)
    ultimately show ?thesis
      by (simp only: a b fun_upd_upd)
  next
    case False
    hence "binary_kernel f (Some p1) (Some p2) (Some po) sz (of_nat N) ?mN = Some ?mN"
      using Suc.prems by (intro binary_kernel_outside) simp_all
    thus ?thesis
      using False by (simp add: min_def)
  qed
  let ?K = "binary_kernel f (Some p1) (Some p2) (Some po) sz"
  have "[0..<Suc N] = [0..<N] @ [N]"
    by simp
  hence "run_threads ?K (map of_nat [0..<Suc N]) m =
          (case run_threads ?K (map of_nat [0..<N]) m of
             None \<Rightarrow> None
           | Some m' \<Rightarrow> run_threads ?K [of_nat N] m')"
    by (simp only: map_append run_threads_append list.map)
  also have "\<dots> = run_threads ?K [of_nat N] ?mN"
    by (simp only: IH option.case)
  also have "\<dots> = Some (m(po \<mapsto> progress f A B Z (min (Suc N) (unat sz))))"
    by (simp only: run_threads.simps step option.case)
  finally show ?case .
qed


lemma progress_full:
  assumes "length A = n" and "length B = n" and "length Z = n"
  shows "progress f A B Z n = map2 f A B"
  by (rule nth_equalityI) (use assms in \<open>auto simp add: length_progress progress_nth\<close>)

subsection \<open>The grid covers the elements\<close>

lemma grid_covers:
  assumes "0 < unat sz" and "unat sz \<le> 2 ^ 32 - 256"
    and "getKernelParameters sz = (threadsPerBlock, blocksPerGrid)"
  shows "blocksPerGrid \<noteq> 0" and "threadsPerBlock \<noteq> 0" and "\<not> 1024 < threadsPerBlock"
    and "unat sz \<le> unat blocksPerGrid * unat threadsPerBlock"
    and "unat blocksPerGrid * unat threadsPerBlock \<le> 2 ^ 32"
proof -
  have goal: "blocksPerGrid \<noteq> 0 \<and> threadsPerBlock \<noteq> 0 \<and> \<not> 1024 < threadsPerBlock
      \<and> unat sz \<le> unat blocksPerGrid * unat threadsPerBlock
      \<and> unat blocksPerGrid * unat threadsPerBlock \<le> 2 ^ 32"
  proof (cases "sz < 256")
    case True
    hence eq: "threadsPerBlock = sz" "blocksPerGrid = 1"
      using assms(3) by (simp_all add: getKernelParameters_small)
    have "unat sz < 256"
      using True by (simp add: word_less_nat_alt)
    moreover have "sz \<noteq> 0"
      using assms(1) by auto
    ultimately show ?thesis
      using eq by (simp add: word_less_nat_alt)
  next
    case False
    hence big: "256 \<le> unat sz"
      by (simp add: word_less_nat_alt)
    let ?G = "(unat sz + 255) div 256"
    have eq: "threadsPerBlock = 256" "blocksPerGrid = of_nat ?G"
      using assms(3) getKernelParameters_large [OF big assms(2)] by simp_all
    have G: "unat (of_nat ?G :: u32) = ?G"
      using assms(2) by (simp add: unat_of_nat)
    have "0 < ?G" and "unat sz \<le> ?G * 256" and "?G * 256 \<le> 2 ^ 32"
      using big assms(2) by simp_all
    thus ?thesis
      using eq G by (auto simp add: word_less_nat_alt)
  qed
  show "blocksPerGrid \<noteq> 0" and "threadsPerBlock \<noteq> 0" and "\<not> 1024 < threadsPerBlock"
    and "unat sz \<le> unat blocksPerGrid * unat threadsPerBlock"
    and "unat blocksPerGrid * unat threadsPerBlock \<le> 2 ^ 32"
    using goal by simp_all
qed




lemma grid_refused:
  assumes "2 ^ 32 - 256 < unat sz"
  shows "snd (getKernelParameters sz) = 0"
proof -
  have nl: "\<not> sz < 256"
    using assms by (simp add: word_less_nat_alt)
  have lt: "unat sz < 2 ^ 32"
    using unsigned_less [of sz] by simp
  have "unat (sz + 255) = (unat sz + 255) mod 2 ^ 32"
    by (simp add: unat_word_ariths)
  also have "\<dots> = unat sz + 255 - 2 ^ 32"
    using assms lt by (simp add: le_mod_geq)
  finally have "unat (sz + 255) < 256"
    using lt by simp
  hence "unat ((sz + 255) div 256) = 0"
    by (simp add: unat_div)
  hence "(sz + 255) div 256 = 0"
    by (simp only: unat_eq_0)
  thus ?thesis
    using nl by (simp add: getKernelParameters_def add.commute)
qed




subsection \<open>A launch on valid buffers\<close>

lemma launch_binary:
  assumes "bufs d p1 = Some A" and "bufs d p2 = Some B" and "bufs d po = Some Z"
    and "unat sz \<le> length A" and "unat sz \<le> length B" and "unat sz \<le> length Z"
    and "0 < unat sz" and "unat sz \<le> 2 ^ 32 - 256"
    and "getKernelParameters sz = (threadsPerBlock, blocksPerGrid)"
  shows "launch name
           (\<lambda>blockDim blockIdx threadIdx.
              binary_kernel f (Some p1) (Some p2) (Some po) sz (blockDim * blockIdx + threadIdx))
           blocksPerGrid threadsPerBlock d =
         (cudaSuccess, d\<lparr>trace := trace d @ [Launch name blocksPerGrid threadsPerBlock],
                         bufs := (bufs d)(po \<mapsto> progress f A B Z (unat sz))\<rparr>)"
proof -
  note g = grid_covers [OF assms(7,8,9)]
  have "run_kernel
          (\<lambda>blockDim blockIdx threadIdx.
             binary_kernel f (Some p1) (Some p2) (Some po) sz (blockDim * blockIdx + threadIdx))
          blocksPerGrid threadsPerBlock (bufs d) =
        run_threads (binary_kernel f (Some p1) (Some p2) (Some po) sz)
          (map of_nat [0..<unat blocksPerGrid * unat threadsPerBlock]) (bufs d)"
    by (rule run_kernel_ids)
  also have "\<dots> = Some ((bufs d)(po \<mapsto>
                 progress f A B Z (min (unat blocksPerGrid * unat threadsPerBlock) (unat sz))))"
    by (rule binary_steps) (use assms g in simp_all)
  also have "min (unat blocksPerGrid * unat threadsPerBlock) (unat sz) = unat sz"
    using g(4) by simp
  finally have run: "run_kernel
          (\<lambda>blockDim blockIdx threadIdx.
             binary_kernel f (Some p1) (Some p2) (Some po) sz (blockDim * blockIdx + threadIdx))
          blocksPerGrid threadsPerBlock (bufs d) =
        Some ((bufs d)(po \<mapsto> progress f A B Z (unat sz)))" .
  show ?thesis
    using g(1,2,3) by (simp add: launch_def run)
qed

lemma launch_checked_binary:
  assumes "bufs d p1 = Some A" and "bufs d p2 = Some B" and "bufs d po = Some Z"
    and "unat sz \<le> length A" and "unat sz \<le> length B" and "unat sz \<le> length Z"
    and "0 < unat sz" and "unat sz \<le> 2 ^ 32 - 256"
  shows "launch_checked name
           (\<lambda>blockDim blockIdx threadIdx.
              binary_kernel f (Some p1) (Some p2) (Some po) sz (blockDim * blockIdx + threadIdx))
           sz d =
         (Inr (), d\<lparr>trace := trace d @ [Launch name (snd (getKernelParameters sz))
                                          (fst (getKernelParameters sz))],
                     bufs := (bufs d)(po \<mapsto> progress f A B Z (unat sz))\<rparr>)"
proof -
  obtain threadsPerBlock blocksPerGrid
    where gk: "getKernelParameters sz = (threadsPerBlock, blocksPerGrid)"
    by (cases "getKernelParameters sz")
  show ?thesis
    by (simp add: launch_checked_def gk launch_binary [OF assms gk])
qed

text \<open>
  A launch is refused for the element counts above \<open>2^32 - 256\<close>, where the grid has no
  block, and for the element count 0, where a block has no thread.
\<close>

lemma launch_checked_refused:
  assumes "unat sz = 0 \<or> 2 ^ 32 - 256 < unat sz"
  shows "launch_checked name kern sz d =
         (Inl launch_failed, d\<lparr>trace := trace d @ [Launch name (snd (getKernelParameters sz))
                                          (fst (getKernelParameters sz))]\<rparr>)"
proof -
  obtain threadsPerBlock blocksPerGrid
    where gk: "getKernelParameters sz = (threadsPerBlock, blocksPerGrid)"
    by (cases "getKernelParameters sz")
  have "blocksPerGrid = 0 \<or> threadsPerBlock = 0"
  proof (cases "unat sz = 0")
    case True
    hence "sz = 0"
      by (simp only: unat_eq_0)
    thus ?thesis
      using gk by (simp add: getKernelParameters_def)
  next
    case False
    hence "2 ^ 32 - 256 < unat sz"
      using assms by simp
    thus ?thesis
      using grid_refused [of sz] gk by simp
  qed
  thus ?thesis
    by (auto simp add: launch_checked_def gk launch_def)
qed


subsection \<open>The in-place forms on valid images\<close>

text \<open>
  The \<^verbatim>\<open>uint32_t\<close> element count of an image is at most its number of pixels, and is that
  number when it is below \<open>2^32\<close>.
\<close>

lemma count_le: "unat (w * h :: u32) \<le> unat w * unat h"
  by (simp add: unat_word_ariths)

lemma count_exact: "unat w * unat h < 2 ^ 32 \<Longrightarrow> unat (w * h :: u32) = unat w * unat h"
  by (simp add: unat_mult_lem [THEN iffD1])

lemma valid_imageD:
  assumes "valid_image d img"
  obtains p buf where "data img = Some p" and "bufs d p = Some buf"
    and "length buf = unat (width img) * unat (height img)"
    and "unat (width img * height img) \<le> length buf"
    and "0 < length buf" and "pixels d img = buf" and "\<not> empty img"
proof -
  from assms obtain p buf where p: "data img = Some p" "bufs d p = Some buf"
    and len: "length buf = unat (width img) * unat (height img)"
    by (auto simp add: valid_image_def split: option.splits)
  from assms have nz: "width img \<noteq> 0" "height img \<noteq> 0"
    by (simp_all add: valid_image_def)
  have "0 < unat (width img)" and "0 < unat (height img)"
    using nz by (simp_all add: unat_gt_0)
  hence pos: "0 < length buf"
    using len by simp
  have le: "unat (width img * height img) \<le> length buf"
    using len count_le [of "width img" "height img"] by simp
  show thesis
    using p len le pos nz by (intro that [of p buf]) (simp_all add: pixels_def empty_def)
qed

text \<open>
  What an in-place form does on valid images: the kernel runs over the first
  \<^verbatim>\<open>width() * height()\<close> bytes, that product taken in \<^verbatim>\<open>uint32_t\<close>, and the rest of the output
  keeps its bytes.
\<close>

lemma binary_inplace_eq:
  assumes "valid_image d in1" and "valid_image d in2" and "valid_image d out"
  shows "binary_inplace name f d in1 in2 out =
     (if width in1 \<noteq> width in2 \<or> height in1 \<noteq> height in2
          \<or> width in1 \<noteq> width out \<or> height in1 \<noteq> height out
      then (Inl bad_input, d)
      else if 0 < unat (width out * height out) \<and> unat (width out * height out) \<le> 2 ^ 32 - 256
      then (Inr (),
            d\<lparr>trace := trace d @ [Launch name (snd (getKernelParameters (width out * height out)))
                                     (fst (getKernelParameters (width out * height out)))],
              bufs := (bufs d)(the (data out) \<mapsto>
                progress f (pixels d in1) (pixels d in2) (pixels d out)
                  (unat (width out * height out)))\<rparr>)
      else (Inl launch_failed,
            d\<lparr>trace := trace d @ [Launch name (snd (getKernelParameters (width out * height out)))
                                     (fst (getKernelParameters (width out * height out)))]\<rparr>))"
proof -
  from assms(1) obtain p1 A where 1: "data in1 = Some p1" "bufs d p1 = Some A"
      "unat (width in1 * height in1) \<le> length A" "pixels d in1 = A" "\<not> empty in1"
    by (rule valid_imageD)
  from assms(2) obtain p2 B where 2: "data in2 = Some p2" "bufs d p2 = Some B"
      "unat (width in2 * height in2) \<le> length B" "pixels d in2 = B" "\<not> empty in2"
    by (rule valid_imageD)
  from assms(3) obtain po Z where 3: "data out = Some po" "bufs d po = Some Z"
      "unat (width out * height out) \<le> length Z" "pixels d out = Z" "\<not> empty out"
    by (rule valid_imageD)
  show ?thesis
  proof (cases "width in1 \<noteq> width in2 \<or> height in1 \<noteq> height in2
          \<or> width in1 \<noteq> width out \<or> height in1 \<noteq> height out")
    case True
    thus ?thesis
      by (auto simp add: binary_inplace_def ParameterValidation3_def)
  next
    case False
    hence same: "width in1 = width out" "height in1 = height out"
      "width in2 = width out" "height in2 = height out"
      by auto
    have pv: "ParameterValidation3 in1 in2 out = Inr ()"
      using False 1(5) 2(5) 3(5) by (simp add: ParameterValidation3_def)
    show ?thesis
    proof (cases "0 < unat (width out * height out)
                  \<and> unat (width out * height out) \<le> 2 ^ 32 - 256")
      case True
      have "launch_checked name
              (\<lambda>blockDim blockIdx threadIdx.
                 binary_kernel f (Some p1) (Some p2) (Some po) (width out * height out)
                   (blockDim * blockIdx + threadIdx))
              (width out * height out) d =
            (Inr (), d\<lparr>trace := trace d @ [Launch name (snd (getKernelParameters (width out * height out)))
                                          (fst (getKernelParameters (width out * height out)))],
                     bufs := (bufs d)(po \<mapsto> progress f A B Z (unat (width out * height out)))\<rparr>)"
        by (rule launch_checked_binary) (use 1 2 3 same True in simp_all)
      thus ?thesis
        using False True pv 1 2 3 by (simp add: binary_inplace_def)
    next
      case big: False
      hence "unat (width out * height out) = 0 \<or> 2 ^ 32 - 256 < unat (width out * height out)"
        by auto
      hence "launch_checked name
              (\<lambda>blockDim blockIdx threadIdx.
                 binary_kernel f (data in1) (data in2) (data out) (width out * height out)
                   (blockDim * blockIdx + threadIdx))
              (width out * height out) d =
            (Inl launch_failed,
             d\<lparr>trace := trace d @ [Launch name (snd (getKernelParameters (width out * height out)))
                                     (fst (getKernelParameters (width out * height out)))]\<rparr>)"
        by (rule launch_checked_refused)
      thus ?thesis
        using False big pv by (simp add: binary_inplace_def)
    qed
  qed
qed


subsection \<open>The allocating forms on valid images\<close>

lemma valid_image_new:
  assumes "valid_device d" and "valid_image d img"
  shows "valid_image (d\<lparr>bufs := (bufs d)(next_ptr d \<mapsto> buf), next_ptr := np, free_bytes := fb,
                         trace := tr\<rparr>) img"
    and "pixels (d\<lparr>bufs := (bufs d)(next_ptr d \<mapsto> buf), next_ptr := np, free_bytes := fb,
                         trace := tr\<rparr>) img = pixels d img"
proof -
  from assms(2) obtain p b where p: "data img = Some p" "bufs d p = Some b"
    by (rule valid_imageD)
  have "bufs d (next_ptr d) = None"
    using assms(1) by (simp add: valid_device_def)
  hence "p \<noteq> next_ptr d"
    using p(2) by auto
  thus "valid_image (d\<lparr>bufs := (bufs d)(next_ptr d \<mapsto> buf), next_ptr := np, free_bytes := fb,
                         trace := tr\<rparr>) img"
    and "pixels (d\<lparr>bufs := (bufs d)(next_ptr d \<mapsto> buf), next_ptr := np, free_bytes := fb,
                         trace := tr\<rparr>) img = pixels d img"
    using assms(2) p by (simp_all add: valid_image_def pixels_def)
qed

text \<open>
  What an allocating form does on valid images: the output is allocated with
  \<open>width * height\<close> uninitialised bytes, and the kernel runs over the first
  \<^verbatim>\<open>width() * height()\<close> of them, that product taken in \<^verbatim>\<open>uint32_t\<close>.
\<close>

lemma binary_alloc_eq:
  assumes "valid_device d" and "valid_image d in1" and "valid_image d in2"
  shows "binary_alloc name f d in1 in2 =
     (let n = unat (width in1) * unat (height in1);
          c = unat (width in1 * height in1);
          l = Launch name (snd (getKernelParameters (width in1 * height in1)))
                (fst (getKernelParameters (width in1 * height in1)))
      in if width in1 \<noteq> width in2 \<or> height in1 \<noteq> height in2 then (Inl bad_input, d)
         else if free_bytes d < n
         then (Inl AllocationFailure, d\<lparr>trace := trace d @ [MallocFailed n]\<rparr>)
         else if 0 < c \<and> c \<le> 2 ^ 32 - 256
         then (Inr \<lparr>width = width in1, height = height in1, data = Some (next_ptr d)\<rparr>,
               d\<lparr>bufs := (bufs d)(next_ptr d \<mapsto>
                   progress f (pixels d in1) (pixels d in2) (map (uninit d) [0..<n]) c),
                 next_ptr := Suc (next_ptr d),
                 free_bytes := free_bytes d - n,
                 trace := trace d @ [Malloc (next_ptr d) n, l]\<rparr>)
         else (Inl launch_failed,
               d\<lparr>next_ptr := Suc (next_ptr d),
                 trace := trace d @ [Malloc (next_ptr d) n, l, Free (next_ptr d)]\<rparr>))"
proof (cases "width in1 \<noteq> width in2 \<or> height in1 \<noteq> height in2")
  case True
  thus ?thesis
    by (auto simp add: binary_alloc_def ParameterValidation2_def Let_def)
next
  case same: False
  let ?n = "unat (width in1) * unat (height in1)"
  let ?c = "unat (width in1 * height in1)"
  let ?out = "\<lparr>width = width in1, height = height in1, data = Some (next_ptr d)\<rparr>"
  let ?junk = "map (uninit d) [0..<?n]"
  let ?d1 = "d\<lparr>bufs := (bufs d)(next_ptr d \<mapsto> ?junk), next_ptr := Suc (next_ptr d),
               free_bytes := free_bytes d - ?n, trace := trace d @ [Malloc (next_ptr d) ?n]\<rparr>"
  from assms(2) have nz: "width in1 \<noteq> 0" "height in1 \<noteq> 0"
    by (simp_all add: valid_image_def)
  from assms(2) have ne1: "\<not> empty in1" by (rule valid_imageD)
  from assms(3) have ne2: "\<not> empty in2" by (rule valid_imageD)
  have pv: "ParameterValidation2 in1 in2 = Inr ()"
    using same ne1 ne2 by (simp add: ParameterValidation2_def)
  show ?thesis
  proof (cases "free_bytes d < ?n")
    case True
    thus ?thesis
      using same pv nz
      by (simp add: binary_alloc_def with_output_def ImageCuda_new_def Let_def)
  next
    case room: False
    hence new: "ImageCuda_new d (width in1) (height in1) = (Inr ?out, ?d1)"
      using nz by (simp add: ImageCuda_new_def Let_def)
    have v1: "valid_image ?d1 in1" and v2: "valid_image ?d1 in2"
      and px: "pixels ?d1 in1 = pixels d in1" "pixels ?d1 in2 = pixels d in2"
      using assms by (simp_all only: valid_image_new)
    have vo: "valid_image ?d1 ?out"
      using nz by (simp add: valid_image_def)
    have po: "pixels ?d1 ?out = ?junk"
      by (simp add: pixels_def)
    have fresh: "bufs d (next_ptr d) = None"
      using assms(1) by (simp add: valid_device_def)
    note inplace = binary_inplace_eq [OF v1 v2 vo, of name f]
    from same have eqs: "width in2 = width in1" "height in2 = height in1"
      by simp_all
    show ?thesis
    proof (cases "0 < ?c \<and> ?c \<le> 2 ^ 32 - 256")
      case True
      hence "binary_inplace name f ?d1 in1 in2 ?out =
               (Inr (), d\<lparr>bufs := (bufs d)(next_ptr d \<mapsto>
                   progress f (pixels d in1) (pixels d in2) ?junk ?c),
                 next_ptr := Suc (next_ptr d),
                 free_bytes := free_bytes d - ?n,
                 trace := trace d @ [Malloc (next_ptr d) ?n,
                    Launch name (snd (getKernelParameters (width in1 * height in1)))
                      (fst (getKernelParameters (width in1 * height in1)))]\<rparr>)"
        unfolding inplace px po by (simp add: eqs)
      thus ?thesis
        using same room True pv new
        by (simp add: binary_alloc_def with_output_def Let_def)
    next
      case False
      hence "binary_inplace name f ?d1 in1 in2 ?out =
               (Inl launch_failed, ?d1\<lparr>trace := trace d @ [Malloc (next_ptr d) ?n,
                    Launch name (snd (getKernelParameters (width in1 * height in1)))
                      (fst (getKernelParameters (width in1 * height in1)))]\<rparr>)"
        unfolding inplace by (simp add: eqs)
      thus ?thesis
        using same room False pv new fresh
        by (simp add: binary_alloc_def with_output_def Let_def ImageCuda_delete_def fun_upd_idem_iff)
    qed
  qed
qed


subsection \<open>Every kernel is an instance of the common shape\<close>

lemma absoluteDifference_binary:
  "absoluteDifference in1 in2 out sz =
     (\<lambda>blockDim blockIdx threadIdx.
        binary_kernel (\<lambda>a b. if a > b then a - b else b - a) in1 in2 out sz
          (blockDim * blockIdx + threadIdx))"
  by (simp add: fun_eq_iff absoluteDifference_def binary_kernel_def Let_def)

lemma bitwiseAnd_binary:
  "bitwiseAnd in1 in2 out sz =
     (\<lambda>blockDim blockIdx threadIdx.
        binary_kernel (\<lambda>a b. a AND b) in1 in2 out sz (blockDim * blockIdx + threadIdx))"
  by (simp add: fun_eq_iff bitwiseAnd_def binary_kernel_def Let_def)

lemma bitwiseOr_binary:
  "bitwiseOr in1 in2 out sz =
     (\<lambda>blockDim blockIdx threadIdx.
        binary_kernel (\<lambda>a b. a OR b) in1 in2 out sz (blockDim * blockIdx + threadIdx))"
  by (simp add: fun_eq_iff bitwiseOr_def binary_kernel_def Let_def)

lemma bitwiseXor_binary:
  "bitwiseXor in1 in2 out sz =
     (\<lambda>blockDim blockIdx threadIdx.
        binary_kernel (\<lambda>a b. a XOR b) in1 in2 out sz (blockDim * blockIdx + threadIdx))"
  by (simp add: fun_eq_iff bitwiseXor_def binary_kernel_def Let_def)

lemma maximum_binary:
  "maximum in1 in2 out sz =
     (\<lambda>blockDim blockIdx threadIdx.
        binary_kernel (\<lambda>a b. if a > b then a else b) in1 in2 out sz
          (blockDim * blockIdx + threadIdx))"
  by (simp add: fun_eq_iff maximum_def binary_kernel_def Let_def)

lemma minimum_binary:
  "minimum in1 in2 out sz =
     (\<lambda>blockDim blockIdx threadIdx.
        binary_kernel (\<lambda>a b. if a < b then a else b) in1 in2 out sz
          (blockDim * blockIdx + threadIdx))"
  by (simp add: fun_eq_iff minimum_def binary_kernel_def Let_def)

lemma subtract_binary:
  "subtract in1 in2 out sz =
     (\<lambda>blockDim blockIdx threadIdx.
        binary_kernel (\<lambda>a b. if a > b then a - b else 0) in1 in2 out sz
          (blockDim * blockIdx + threadIdx))"
  by (simp add: fun_eq_iff subtract_def binary_kernel_def Let_def)

lemma unary_as_binary:
  "(if i < sz then do { a \<leftarrow> load m inp i; store m out i (g a) } else Some m) =
     binary_kernel (\<lambda>a b. g a) inp inp out sz i m"
  by (cases "load m inp i") (simp_all add: binary_kernel_def)

lemma invert_binary:
  "invert inp out sz =
     (\<lambda>blockDim blockIdx threadIdx.
        binary_kernel (\<lambda>a b. NOT a) inp inp out sz (blockDim * blockIdx + threadIdx))"
  by (simp add: fun_eq_iff invert_def Let_def unary_as_binary)

lemma gammaCorrection_binary:
  "gammaCorrection lut inp out sz =
     (\<lambda>blockDim blockIdx threadIdx.
        binary_kernel (\<lambda>a b. lut a) inp inp out sz (blockDim * blockIdx + threadIdx))"
  by (simp add: fun_eq_iff gammaCorrection_def Let_def unary_as_binary)

lemma Subtract_inplace_binary:
  "Subtract_inplace d in1 in2 out =
     binary_inplace ''subtract'' (\<lambda>a b. if a > b then a - b else 0) d in1 in2 out"
  unfolding Subtract_inplace_def binary_inplace_def subtract_binary ..

lemma Subtract_binary:
  "Subtract d in1 in2 = binary_alloc ''subtract'' (\<lambda>a b. if a > b then a - b else 0) d in1 in2"
  unfolding Subtract_def binary_alloc_def Subtract_inplace_binary ..

subsection \<open>The pixels of the result\<close>

text \<open>
  When the number of pixels is below \<open>2^32\<close>, a call that returns has computed every
  pixel.
\<close>

lemma binary_inplace_pixels:
  assumes "valid_image d in1" and "valid_image d in2" and "valid_image d out"
    and "unat (width out) * unat (height out) < 2 ^ 32"
    and "binary_inplace name f d in1 in2 out = (Inr (), d')"
  shows "pixels d' out = map2 f (pixels d in1) (pixels d in2)"
    and "length (pixels d in1) = unat (width out) * unat (height out)"
    and "length (pixels d in2) = unat (width out) * unat (height out)"
proof -
  from assms(3) obtain po Z where po: "data out = Some po" "pixels d out = Z"
    "length Z = unat (width out) * unat (height out)"
    by (rule valid_imageD)
  have eq: "width in1 = width out \<and> height in1 = height out
      \<and> width in2 = width out \<and> height in2 = height out
      \<and> bufs d' = (bufs d)(po \<mapsto> progress f (pixels d in1) (pixels d in2) (pixels d out)
                                   (unat (width out * height out)))"
    using assms(5) po(1) unfolding binary_inplace_eq [OF assms(1,2,3)]
    by (auto split: if_splits)
  from assms(1) obtain A where A: "pixels d in1 = A"
    "length A = unat (width in1) * unat (height in1)"
    by (rule valid_imageD)
  thus l1: "length (pixels d in1) = unat (width out) * unat (height out)"
    using eq by simp
  from assms(2) obtain B where B: "pixels d in2 = B"
    "length B = unat (width in2) * unat (height in2)"
    by (rule valid_imageD)
  thus l2: "length (pixels d in2) = unat (width out) * unat (height out)"
    using eq by simp
  have "progress f (pixels d in1) (pixels d in2) (pixels d out) (unat (width out * height out)) =
          map2 f (pixels d in1) (pixels d in2)"
    using l1 l2 po(2,3) by (intro progress_full) (simp_all add: count_exact [OF assms(4)])
  thus "pixels d' out = map2 f (pixels d in1) (pixels d in2)"
    using po(1) eq by (simp add: pixels_def)
qed

lemma binary_alloc_pixels:
  assumes "valid_device d" and "valid_image d in1" and "valid_image d in2"
    and "unat (width in1) * unat (height in1) < 2 ^ 32"
    and "binary_alloc name f d in1 in2 = (Inr out, d')"
  shows "pixels d' out = map2 f (pixels d in1) (pixels d in2)"
    and "length (pixels d in1) = unat (width in1) * unat (height in1)"
    and "length (pixels d in2) = unat (width in1) * unat (height in1)"
    and "width out = width in1" and "height out = height in1"
proof -
  have eq: "width in1 = width in2 \<and> height in1 = height in2
      \<and> out = \<lparr>width = width in1, height = height in1, data = Some (next_ptr d)\<rparr>
      \<and> bufs d' = (bufs d)(next_ptr d \<mapsto>
            progress f (pixels d in1) (pixels d in2)
              (map (uninit d) [0..<unat (width in1) * unat (height in1)])
              (unat (width in1 * height in1)))"
    using assms(5) unfolding binary_alloc_eq [OF assms(1,2,3)]
    by (auto simp add: Let_def split: if_splits)
  thus "width out = width in1" and "height out = height in1"
    by simp_all
  from assms(2) obtain A where "pixels d in1 = A"
    "length A = unat (width in1) * unat (height in1)"
    by (rule valid_imageD)
  thus l1: "length (pixels d in1) = unat (width in1) * unat (height in1)"
    by simp
  from assms(3) obtain B where "pixels d in2 = B"
    "length B = unat (width in2) * unat (height in2)"
    by (rule valid_imageD)
  thus l2: "length (pixels d in2) = unat (width in1) * unat (height in1)"
    using eq by simp
  have "progress f (pixels d in1) (pixels d in2)
          (map (uninit d) [0..<unat (width in1) * unat (height in1)])
          (unat (width in1 * height in1)) = map2 f (pixels d in1) (pixels d in2)"
    using l1 l2 by (intro progress_full) (simp_all add: count_exact [OF assms(4)])
  thus "pixels d' out = map2 f (pixels d in1) (pixels d in2)"
    using eq by (simp add: pixels_def)
qed

text \<open>
  With at most \<open>2^32 - 256\<close> pixels, the in-place form returns on valid images of the same
  size, and the allocating form returns when the device has the memory.
\<close>

lemma binary_inplace_returns:
  assumes "valid_image d in1" and "valid_image d in2" and "valid_image d out"
    and "width in1 = width in2" and "height in1 = height in2"
    and "width in1 = width out" and "height in1 = height out"
    and "unat (width out) * unat (height out) \<le> 2 ^ 32 - 256"
  shows "fst (binary_inplace name f d in1 in2 out) = Inr ()"
proof -
  have small: "unat (width out) * unat (height out) < 2 ^ 32"
    using assms(8) by simp
  from assms(3) obtain Z :: "u8 list"
    where "length Z = unat (width out) * unat (height out)" "0 < length Z"
    by (rule valid_imageD)
  hence "0 < unat (width out * height out) \<and> unat (width out * height out) \<le> 2 ^ 32 - 256"
    using assms(8) by (simp add: count_exact [OF small])
  thus ?thesis
    unfolding binary_inplace_eq [OF assms(1,2,3)] using assms(4,5,6,7) by simp
qed

lemma binary_alloc_returns:
  assumes "valid_device d" and "valid_image d in1" and "valid_image d in2"
    and "width in1 = width in2" and "height in1 = height in2"
    and "unat (width in1) * unat (height in1) \<le> 2 ^ 32 - 256"
    and "unat (width in1) * unat (height in1) \<le> free_bytes d"
  shows "\<exists>out. fst (binary_alloc name f d in1 in2) = Inr out"
proof -
  have small: "unat (width in1) * unat (height in1) < 2 ^ 32"
    using assms(6) by simp
  from assms(2) obtain A :: "u8 list"
    where "length A = unat (width in1) * unat (height in1)" "0 < length A"
    by (rule valid_imageD)
  hence "0 < unat (width in1 * height in1) \<and> unat (width in1 * height in1) \<le> 2 ^ 32 - 256"
    using assms(6) by (simp add: count_exact [OF small])
  thus ?thesis
    unfolding binary_alloc_eq [OF assms(1,2,3)] using assms(4,5,7) by (simp add: Let_def)
qed

subsection \<open>The order of the threads does not matter\<close>


lemma done_at_empty: "done_at f A B Z {} = Z"
  by (simp add: done_at_def map_nth)

lemma length_done_at: "length (done_at f A B Z S) = length Z"
  by (simp add: done_at_def)

lemma done_at_nth:
  "i < length Z \<Longrightarrow> done_at f A B Z S ! i = (if i \<in> S then f (A ! i) (B ! i) else Z ! i)"
  by (simp add: done_at_def)

lemma done_at_insert:
  "k < length Z \<Longrightarrow> (done_at f A B Z S)[k := f (A ! k) (B ! k)] = done_at f A B Z (insert k S)"
  by (rule nth_equalityI) (auto simp add: length_done_at done_at_nth nth_list_update)

lemma binary_any_order:
  assumes "m p1 = Some A" and "m p2 = Some B" and "m po = Some Z"
    and "unat sz \<le> length A" and "unat sz \<le> length B" and "unat sz \<le> length Z"
  shows "distinct ids \<Longrightarrow> \<forall>i \<in> set ids. i < 2 ^ 32 \<Longrightarrow>
         run_threads (binary_kernel f (Some p1) (Some p2) (Some po) sz) (map of_nat ids) m =
           Some (m(po \<mapsto> done_at f A B Z {i \<in> set ids. i < unat sz}))"
proof (induction ids rule: rev_induct)
  case Nil
  show ?case
    using assms(3) by (simp add: done_at_empty map_upd_triv)
next
  case (snoc x ids)
  let ?K = "binary_kernel f (Some p1) (Some p2) (Some po) sz"
  let ?S = "{i \<in> set ids. i < unat sz}"
  let ?Z = "done_at f A B Z ?S"
  let ?m = "m(po \<mapsto> ?Z)"
  have IH: "run_threads ?K (map of_nat ids) m = Some ?m"
    by (rule snoc.IH) (use snoc.prems in simp_all)
  have x: "x \<notin> set ids" "x < 2 ^ 32"
    using snoc.prems by simp_all
  have step: "?K (of_nat x) ?m = Some (m(po \<mapsto> done_at f A B Z {i \<in> set (ids @ [x]). i < unat sz}))"
  proof (cases "x < unat sz")
    case True
    let ?A = "if p1 = po then ?Z else A"
    let ?B = "if p2 = po then ?Z else B"
    have xZ: "x < length Z"
      using True assms(6) by simp
    have a: "?A ! x = A ! x"
      using assms(1,3) xZ x(1) by (auto simp add: done_at_nth)
    have b: "?B ! x = B ! x"
      using assms(2,3) xZ x(1) by (auto simp add: done_at_nth)
    have "?K (of_nat x) ?m = Some (?m(po \<mapsto> ?Z[x := f (?A ! x) (?B ! x)]))"
      by (rule binary_kernel_inside) (use assms True in \<open>auto simp add: length_done_at\<close>)
    moreover have "{i \<in> set (ids @ [x]). i < unat sz} = insert x ?S"
      using True by auto
    hence "?Z[x := f (A ! x) (B ! x)] = done_at f A B Z {i \<in> set (ids @ [x]). i < unat sz}"
      using xZ by (simp only: done_at_insert)
    ultimately show ?thesis
      by (simp only: a b fun_upd_upd)
  next
    case False
    hence "?K (of_nat x) ?m = Some ?m"
      using x(2) by (intro binary_kernel_outside) simp_all
    moreover have "{i \<in> set (ids @ [x]). i < unat sz} = ?S"
      using False by auto
    ultimately show ?thesis
      by (simp only:)
  qed
  have "run_threads ?K (map of_nat (ids @ [x])) m =
          (case run_threads ?K (map of_nat ids) m of
             None \<Rightarrow> None
           | Some m' \<Rightarrow> run_threads ?K [of_nat x] m')"
    by (simp only: map_append run_threads_append list.map)
  also have "\<dots> = run_threads ?K [of_nat x] ?m"
    by (simp only: IH option.case)
  also have "\<dots> = Some (m(po \<mapsto> done_at f A B Z {i \<in> set (ids @ [x]). i < unat sz}))"
    by (simp only: run_threads.simps step option.case)
  finally show ?case .
qed

lemma thread_order_irrelevant:
  assumes "m p1 = Some A" and "m p2 = Some B" and "m po = Some Z"
    and "unat sz \<le> length A" and "unat sz \<le> length B" and "unat sz \<le> length Z"
    and "unat gridDim * unat blockDim \<le> 2 ^ 32"
    and "mset ts = mset (grid gridDim blockDim)"
  shows "run_threads
           (\<lambda>(blockIdx, threadIdx).
              binary_kernel f (Some p1) (Some p2) (Some po) sz (blockDim * blockIdx + threadIdx))
           ts m =
         run_kernel
           (\<lambda>blockDim blockIdx threadIdx.
              binary_kernel f (Some p1) (Some p2) (Some po) sz (blockDim * blockIdx + threadIdx))
           gridDim blockDim m"
proof -
  let ?K = "binary_kernel f (Some p1) (Some p2) (Some po) sz"
  let ?N = "unat gridDim * unat blockDim"
  let ?id = "\<lambda>(blockIdx, threadIdx). blockDim * blockIdx + threadIdx"
  let ?ids = "map (\<lambda>t. unat (?id t)) ts"
  have wid: "map (of_nat :: nat \<Rightarrow> u32) ?ids = map ?id ts"
    by (simp add: o_def)
  have "mset ?ids = mset (map (\<lambda>t. unat (?id t)) (grid gridDim blockDim))"
    unfolding mset_map by (simp only: assms(8))
  also have "map (\<lambda>t. unat (?id t)) (grid gridDim blockDim) =
               map unat (map ?id (grid gridDim blockDim))"
    by (simp only: map_map o_def)
  also have "\<dots> = map unat (map (of_nat :: nat \<Rightarrow> u32) [0..<?N])"
    by (simp only: grid_ids)
  also have "\<dots> = [0..<?N]"
    using assms(7) by (intro nth_equalityI) (simp_all add: unat_of_nat_u32)
  finally have perm: "mset ?ids = mset [0..<?N]" .
  have dist: "distinct ?ids"
    using mset_eq_imp_distinct_iff [OF perm] by simp
  have elems: "set ?ids = {0..<?N}"
    using mset_eq_setD [OF perm] by simp
  have small: "\<forall>i \<in> set ?ids. i < 2 ^ 32"
    using elems assms(7) by auto
  have "run_threads (\<lambda>(blockIdx, threadIdx). ?K (blockDim * blockIdx + threadIdx)) ts m =
          run_threads ?K (map ?id ts) m"
    by (rule run_threads_pairs)
  also have "\<dots> = run_threads ?K (map of_nat ?ids) m"
    by (simp only: wid)
  also have "\<dots> = Some (m(po \<mapsto> done_at f A B Z {i \<in> set ?ids. i < unat sz}))"
    using assms(1-6) dist small by (rule binary_any_order)
  also have "{i \<in> set ?ids. i < unat sz} = {i \<in> set [0..<?N]. i < unat sz}"
    using elems by simp
  also have "Some (m(po \<mapsto> done_at f A B Z {i \<in> set [0..<?N]. i < unat sz})) =
               run_threads ?K (map of_nat [0..<?N]) m"
    using assms(1-6) by (intro binary_any_order [symmetric]) (use assms(7) in auto)
  also have "\<dots> = run_kernel (\<lambda>blockDim blockIdx threadIdx. ?K (blockDim * blockIdx + threadIdx))
                      gridDim blockDim m"
    by (rule run_kernel_ids [symmetric])
  finally show ?thesis .
qed

subsection \<open>Failing before the launch\<close>

lemma GammaCorrection_inplace_negative:
  "less_zero a \<or> less_zero gamma \<Longrightarrow>
     GammaCorrection_inplace lut d inp out a gamma = (Inl bad_input, d)"
  by (simp add: GammaCorrection_inplace_def ParameterValidation2_def)

lemma new_then_delete:
  assumes "w \<noteq> 0" "h \<noteq> 0" "unat w * unat h \<le> free_bytes d" "valid_device d"
    and "ImageCuda_new d w h = (r, d1)"
  shows "r = Inr \<lparr>width = w, height = h, data = Some (next_ptr d)\<rparr>"
    and "ImageCuda_delete d1 \<lparr>width = w, height = h, data = Some (next_ptr d)\<rparr> =
           d\<lparr>next_ptr := Suc (next_ptr d),
             trace := trace d @ [Malloc (next_ptr d) (unat w * unat h), Free (next_ptr d)]\<rparr>"
proof -
  have none: "bufs d (next_ptr d) = None"
    using assms(4) by (simp add: valid_device_def)
  hence "(bufs d)(next_ptr d := None) = bufs d"
    by (simp add: fun_upd_idem_iff)
  thus "r = Inr \<lparr>width = w, height = h, data = Some (next_ptr d)\<rparr>"
    and "ImageCuda_delete d1 \<lparr>width = w, height = h, data = Some (next_ptr d)\<rparr> =
           d\<lparr>next_ptr := Suc (next_ptr d),
             trace := trace d @ [Malloc (next_ptr d) (unat w * unat h), Free (next_ptr d)]\<rparr>"
    using assms(1,2,3,5) by (auto simp add: ImageCuda_new_def ImageCuda_delete_def Let_def)
qed

subsection \<open>Every operation is an instance of the common shape\<close>

lemma AbsoluteDifference_inplace_binary:
  "AbsoluteDifference_inplace d in1 in2 out =
     binary_inplace ''absoluteDifference'' (\<lambda>a b. if a > b then a - b else b - a) d in1 in2 out"
  unfolding AbsoluteDifference_inplace_def binary_inplace_def absoluteDifference_binary ..

lemma AbsoluteDifference_binary:
  "AbsoluteDifference d in1 in2 = binary_alloc ''absoluteDifference'' (\<lambda>a b. if a > b then a - b else b - a) d in1 in2"
  unfolding AbsoluteDifference_def binary_alloc_def AbsoluteDifference_inplace_binary ..

lemma BitwiseAnd_inplace_binary:
  "BitwiseAnd_inplace d in1 in2 out =
     binary_inplace ''bitwiseAnd'' (\<lambda>a b. a AND b) d in1 in2 out"
  unfolding BitwiseAnd_inplace_def binary_inplace_def bitwiseAnd_binary ..

lemma BitwiseAnd_binary:
  "BitwiseAnd d in1 in2 = binary_alloc ''bitwiseAnd'' (\<lambda>a b. a AND b) d in1 in2"
  unfolding BitwiseAnd_def binary_alloc_def BitwiseAnd_inplace_binary ..

lemma BitwiseOr_inplace_binary:
  "BitwiseOr_inplace d in1 in2 out =
     binary_inplace ''bitwiseOr'' (\<lambda>a b. a OR b) d in1 in2 out"
  unfolding BitwiseOr_inplace_def binary_inplace_def bitwiseOr_binary ..

lemma BitwiseOr_binary:
  "BitwiseOr d in1 in2 = binary_alloc ''bitwiseOr'' (\<lambda>a b. a OR b) d in1 in2"
  unfolding BitwiseOr_def binary_alloc_def BitwiseOr_inplace_binary ..

lemma BitwiseXor_inplace_binary:
  "BitwiseXor_inplace d in1 in2 out =
     binary_inplace ''bitwiseXor'' (\<lambda>a b. a XOR b) d in1 in2 out"
  unfolding BitwiseXor_inplace_def binary_inplace_def bitwiseXor_binary ..

lemma BitwiseXor_binary:
  "BitwiseXor d in1 in2 = binary_alloc ''bitwiseXor'' (\<lambda>a b. a XOR b) d in1 in2"
  unfolding BitwiseXor_def binary_alloc_def BitwiseXor_inplace_binary ..

lemma Maximum_inplace_binary:
  "Maximum_inplace d in1 in2 out =
     binary_inplace ''maximum'' (\<lambda>a b. if a > b then a else b) d in1 in2 out"
  unfolding Maximum_inplace_def binary_inplace_def maximum_binary ..

lemma Maximum_binary:
  "Maximum d in1 in2 = binary_alloc ''maximum'' (\<lambda>a b. if a > b then a else b) d in1 in2"
  unfolding Maximum_def binary_alloc_def Maximum_inplace_binary ..

lemma Minimum_inplace_binary:
  "Minimum_inplace d in1 in2 out =
     binary_inplace ''minimum'' (\<lambda>a b. if a < b then a else b) d in1 in2 out"
  unfolding Minimum_inplace_def binary_inplace_def minimum_binary ..

lemma Minimum_binary:
  "Minimum d in1 in2 = binary_alloc ''minimum'' (\<lambda>a b. if a < b then a else b) d in1 in2"
  unfolding Minimum_def binary_alloc_def Minimum_inplace_binary ..

lemma ParameterValidation3_twice:
  "ParameterValidation3 inp inp out = ParameterValidation2 inp out"
  by (simp add: ParameterValidation3_def ParameterValidation2_def)

lemma ParameterValidation2_twice:
  "ParameterValidation2 inp inp = ParameterValidation1 inp"
  by (simp add: ParameterValidation2_def ParameterValidation1_def)

lemma Invert_inplace_unary:
  "Invert_inplace d inp out = unary_inplace ''invert'' (\<lambda>a. NOT a) d inp out"
  unfolding Invert_inplace_def unary_inplace_def binary_inplace_def invert_binary
    ParameterValidation3_twice ..

lemma Invert_unary:
  "Invert d inp = unary_alloc ''invert'' (\<lambda>a. NOT a) d inp"
  unfolding Invert_def unary_alloc_def binary_alloc_def Invert_inplace_unary unary_inplace_def
    ParameterValidation2_twice ..

lemma GammaCorrection_inplace_unary:
  assumes "\<not> (less_zero a \<or> less_zero gamma)"
  shows "GammaCorrection_inplace lut d inp out a gamma =
           unary_inplace ''gammaCorrection'' (lut a gamma) d inp out"
  unfolding GammaCorrection_inplace_def unary_inplace_def binary_inplace_def gammaCorrection_binary
    ParameterValidation3_twice
  using assms by simp

lemma GammaCorrection_unary:
  assumes "\<not> (less_zero a \<or> less_zero gamma)"
  shows "GammaCorrection lut d inp a gamma = unary_alloc ''gammaCorrection'' (lut a gamma) d inp"
  unfolding GammaCorrection_def unary_alloc_def binary_alloc_def unary_inplace_def
    GammaCorrection_inplace_unary [OF assms] ParameterValidation2_twice ..

subsection \<open>What a launch leaves untouched\<close>


lemma store_frame:
  "store m out i v = Some m' \<Longrightarrow> out \<noteq> Some p \<Longrightarrow> m' p = m p"
  by (auto simp add: store_def split: option.splits if_splits)

lemma binary_kernel_frame:
  "binary_kernel f in1 in2 out sz i m = Some m' \<Longrightarrow> out \<noteq> Some p \<Longrightarrow> m' p = m p"
  by (auto simp add: binary_kernel_def split: if_splits Option.bind_splits dest: store_frame)

lemma run_threads_frame:
  assumes "\<And>t m m'. k t m = Some m' \<Longrightarrow> m' p = m p"
  shows "run_threads k ts m = Some m' \<Longrightarrow> m' p = m p"
proof (induction ts arbitrary: m)
  case Nil
  thus ?case by simp
next
  case (Cons t ts)
  then obtain m1 where 1: "k t m = Some m1" and 2: "run_threads k ts m1 = Some m'"
    by (auto split: option.splits)
  have "m' p = m1 p"
    using 2 by (rule Cons.IH)
  thus ?case
    using assms [OF 1] by simp
qed

lemma launch_checked_frame:
  assumes "\<And>blockDim blockIdx threadIdx m m'.
             kern blockDim blockIdx threadIdx m = Some m' \<Longrightarrow> m' p = m p"
  shows "bufs (snd (launch_checked name kern sz d)) p = bufs d p"
proof -
  obtain threadsPerBlock blocksPerGrid
    where gk: "getKernelParameters sz = (threadsPerBlock, blocksPerGrid)"
    by (cases "getKernelParameters sz")
  have "bufs (snd (launch name kern blocksPerGrid threadsPerBlock d)) p = bufs d p"
  proof (cases "run_kernel kern blocksPerGrid threadsPerBlock (bufs d)")
    case None
    thus ?thesis
      by (simp add: launch_def Let_def)
  next
    case (Some m')
    hence "m' p = bufs d p"
      unfolding run_kernel_def
      by (rule run_threads_frame [rotated]) (auto dest: assms)
    thus ?thesis
      using Some by (simp add: launch_def Let_def)
  qed
  thus ?thesis
    by (cases "launch name kern blocksPerGrid threadsPerBlock d")
      (simp add: launch_checked_def gk)
qed

lemma binary_inplace_frame:
  assumes "data out \<noteq> Some p"
  shows "bufs (snd (binary_inplace name f d in1 in2 out)) p = bufs d p"
proof (cases "ParameterValidation3 in1 in2 out")
  case (Inl e)
  thus ?thesis
    by (simp add: binary_inplace_def)
next
  case (Inr u)
  thus ?thesis
    using assms
    by (simp add: binary_inplace_def launch_checked_frame binary_kernel_frame)
qed

lemma binary_alloc_frame:
  assumes "p \<noteq> next_ptr d"
  shows "bufs (snd (binary_alloc name f d in1 in2)) p = bufs d p"
proof (cases "ParameterValidation2 in1 in2")
  case (Inl e)
  thus ?thesis
    by (simp add: binary_alloc_def)
next
  case (Inr u)
  hence nz: "width in1 \<noteq> 0" "height in1 \<noteq> 0"
    by (auto simp add: ParameterValidation2_def empty_def split: if_splits)
  let ?n = "unat (width in1) * unat (height in1)"
  show ?thesis
  proof (cases "free_bytes d < ?n")
    case True
    thus ?thesis
      using Inr nz by (simp add: binary_alloc_def with_output_def ImageCuda_new_def)
  next
    case False
    let ?out = "\<lparr>width = width in1, height = height in1, data = Some (next_ptr d)\<rparr>"
    let ?d1 = "d\<lparr>bufs := (bufs d)(next_ptr d \<mapsto> map (uninit d) [0..<?n]),
                 next_ptr := Suc (next_ptr d), free_bytes := free_bytes d - ?n,
                 trace := trace d @ [Malloc (next_ptr d) ?n]\<rparr>"
    have new: "ImageCuda_new d (width in1) (height in1) = (Inr ?out, ?d1)"
      using False nz by (simp add: ImageCuda_new_def Let_def)
    have "bufs (snd (binary_inplace name f ?d1 in1 in2 ?out)) p = bufs ?d1 p"
      by (rule binary_inplace_frame) (use assms in simp)
    hence body: "bufs (snd (binary_inplace name f ?d1 in1 in2 ?out)) p = bufs d p"
      using assms by simp
    have del: "bufs (ImageCuda_delete d2 ?out) p = bufs d2 p" for d2
      using assms by (simp add: ImageCuda_delete_def split: option.splits)
    obtain r d2 where run: "binary_inplace name f ?d1 in1 in2 ?out = (r, d2)"
      by (cases "binary_inplace name f ?d1 in1 in2 ?out")
    hence d2: "bufs d2 p = bufs d p"
      using body by simp
    have "binary_alloc name f d in1 in2 =
            (case r of Inl e \<Rightarrow> (Inl e, ImageCuda_delete d2 ?out) | Inr _ \<Rightarrow> (Inr ?out, d2))"
      by (simp add: binary_alloc_def with_output_def Inr new run)
    thus ?thesis
      using d2 del by (simp split: sum.splits)
  qed
qed



lemma binary_inplace_keeps:
  assumes "data img \<noteq> data out"
  shows "pixels (snd (binary_inplace name f d in1 in2 out)) img = pixels d img"
proof (cases "data img")
  case None
  thus ?thesis
    by (simp add: pixels_def)
next
  case (Some p)
  hence "bufs (snd (binary_inplace name f d in1 in2 out)) p = bufs d p"
    using assms by (intro binary_inplace_frame) simp
  thus ?thesis
    using Some by (simp add: pixels_def)
qed

lemma binary_alloc_keeps:
  assumes "valid_device d" and "valid_image d img"
  shows "pixels (snd (binary_alloc name f d in1 in2)) img = pixels d img"
proof -
  from assms(2) obtain p buf where p: "data img = Some p" "bufs d p = Some buf"
    by (rule valid_imageD)
  have "bufs d (next_ptr d) = None"
    using assms(1) by (simp add: valid_device_def)
  hence "p \<noteq> next_ptr d"
    using p(2) by auto
  hence "bufs (snd (binary_alloc name f d in1 in2)) p = bufs d p"
    by (rule binary_alloc_frame)
  thus ?thesis
    using p(1) by (simp add: pixels_def)
qed

lemma GammaCorrection_inplace_keeps:
  assumes "data img \<noteq> data out"
  shows "pixels (snd (GammaCorrection_inplace lut d inp out a gamma)) img = pixels d img"
proof (cases "less_zero a \<or> less_zero gamma")
  case True
  thus ?thesis
    by (simp add: GammaCorrection_inplace_negative)
next
  case False
  thus ?thesis
    using assms by (simp add: GammaCorrection_inplace_unary unary_inplace_def binary_inplace_keeps)
qed

lemma GammaCorrection_keeps:
  assumes "valid_device d" and "valid_image d img"
  shows "pixels (snd (GammaCorrection lut d inp a gamma)) img = pixels d img"
proof (cases "less_zero a \<or> less_zero gamma")
  case neg: True
  show ?thesis
  proof (cases "empty inp")
    case True
    thus ?thesis
      by (simp add: GammaCorrection_def ParameterValidation1_def)
  next
    case False
    hence nz: "width inp \<noteq> 0" "height inp \<noteq> 0"
      by (simp_all add: empty_def)
    from assms(2) obtain p buf where p: "data img = Some p" "bufs d p = Some buf"
      by (rule valid_imageD)
    have "bufs d (next_ptr d) = None"
      using assms(1) by (simp add: valid_device_def)
    hence "p \<noteq> next_ptr d"
      using p(2) by auto
    thus ?thesis
      using False nz neg p
      by (simp add: GammaCorrection_def ParameterValidation1_def with_output_def ImageCuda_new_def
          GammaCorrection_inplace_negative ImageCuda_delete_def pixels_def Let_def)
  qed
next
  case False
  thus ?thesis
    using assms by (simp add: GammaCorrection_unary unary_alloc_def binary_alloc_keeps)
qed

subsection \<open>Pointwise functions of two lists\<close>


lemma map2_commute:
  assumes "\<And>a b. f a b = f b a"
  shows "map2 f xs ys = map2 f ys xs"
proof (induction xs arbitrary: ys)
  case Nil
  show ?case by simp
next
  case (Cons x xs)
  thus ?case
    using assms by (cases ys) simp_all
qed

lemma map2_same:
  assumes "\<And>a. f a a = a"
  shows "map2 f xs xs = xs"
  by (induction xs) (simp_all add: assms)

lemma progress_commute:
  assumes "\<And>a b. f a b = f b a"
  shows "progress f A B Z k = progress f B A Z k"
proof -
  have "f (A ! i) (B ! i) = f (B ! i) (A ! i)" for i
    by (rule assms)
  thus ?thesis
    by (simp add: progress_def)
qed

lemma binary_alloc_commute:
  assumes "valid_device d" and "valid_image d A" and "valid_image d B"
    and "\<And>a b. f a b = f b a"
  shows "binary_alloc name f d A B = binary_alloc name f d B A"
proof (cases "width A = width B \<and> height A = height B")
  case True
  thus ?thesis
    unfolding binary_alloc_eq [OF assms(1,2,3)] binary_alloc_eq [OF assms(1,3,2)]
    by (simp add: Let_def progress_commute [of f "pixels d A" "pixels d B", OF assms(4)])
next
  case False
  thus ?thesis
    unfolding binary_alloc_eq [OF assms(1,2,3)] binary_alloc_eq [OF assms(1,3,2)]
    by (auto simp add: Let_def)
qed

subsection \<open>The example device\<close>

lemma valid_dev1:
  "valid_device dev1" "valid_image dev1 imgA" "valid_image dev1 imgB" "valid_image dev1 imgC"
  "valid_image dev1 imgD"
  by (simp_all add: valid_device_def valid_image_def dev1_def imgA_def imgB_def imgC_def imgD_def)

lemma pixels_dev1:
  "pixels dev1 imgA = [10, 20, 30]" "pixels dev1 imgB = [255, 0, 170]" "pixels dev1 imgC = [7]"
  by (simp_all add: pixels_def dev1_def imgA_def imgB_def imgC_def)

lemmas eval_defs =
  ParameterValidation1_def ParameterValidation2_def ParameterValidation3_def empty_def
  with_output_def ImageCuda_new_def ImageCuda_delete_def launch_checked_def launch_def
  getKernelParameters_def run_kernel_def grid_def load_def store_def pixels_def
  dev1_def imgA_def imgB_def imgC_def imgD_def img0_def upt_rec Let_def

text \<open>
  The scenario of the specification: the bitwise AND of \<open>[10, 20, 30]\<close> and
  \<open>[255, 0, 170]\<close> is \<open>[10, 0, 10]\<close>, their absolute difference is \<open>[245, 20, 140]\<close>.
\<close>

lemma eval_scenario:
  "fst (BitwiseAnd dev1 imgA imgB) = Inr \<lparr>width = 3, height = 1, data = Some 4\<rparr>"
  "pixels (snd (BitwiseAnd dev1 imgA imgB)) \<lparr>width = 3, height = 1, data = Some 4\<rparr> = [10, 0, 10]"
  "pixels (snd (AbsoluteDifference dev1 imgA imgB)) \<lparr>width = 3, height = 1, data = Some 4\<rparr> =
     [245, 20, 140]"
  "trace (snd (BitwiseAnd dev1 imgA imgB)) = [Malloc 4 3, Launch ''bitwiseAnd'' 1 3]"
  by (simp_all add: BitwiseAnd_def BitwiseAnd_inplace_def bitwiseAnd_def AbsoluteDifference_def
      AbsoluteDifference_inplace_def absoluteDifference_def eval_defs)

text \<open>
  The example device and its images of 65537 x 65537 pixels.
\<close>

lemma valid_devBig:
  "valid_device devBig" "valid_image devBig bigA" "valid_image devBig bigB"
  "valid_image devBig bigC" "valid_image devBig wideD"
  by (simp_all add: valid_device_def valid_image_def devBig_def bigA_def bigB_def bigC_def
      wideD_def)

lemma pixels_devBig:
  "pixels devBig bigA = replicate 4295098369 5" "pixels devBig bigB = replicate 4295098369 3"
  "pixels devBig bigC = replicate 4295098369 9"
  by (simp_all add: pixels_def devBig_def bigA_def bigB_def bigC_def)

lemma count_big: "unat (65537 * 65537 :: u32) = 131073"
  by simp

lemma uninit_nth: "i < n \<Longrightarrow> map u [0..<n] ! i = u i"
  by simp

subsection \<open>Row copies\<close>


lemma row_fits:
  assumes "k < H" and "cnt \<le> stride"
  shows "k * stride + cnt \<le> H * (stride :: nat)"
proof -
  have "k * stride + cnt \<le> Suc k * stride"
    using assms(2) by simp
  also have "\<dots> \<le> H * stride"
    using assms(1) by (intro mult_le_mono1) simp
  finally show ?thesis .
qed

lemma length_copy_rows:
  assumes "cnt \<le> dstStride" and "cnt \<le> srcStride"
    and "length dst = H * dstStride" and "length src = H * srcStride"
  shows "k \<le> H \<Longrightarrow> length (copy_rows cnt dstStride srcStride src dst k) = length dst"
proof (induction k)
  case 0
  show ?case by simp
next
  case (Suc k)
  hence k: "k < H" by simp
  have "k * dstStride + cnt \<le> length dst" and "k * srcStride + cnt \<le> length src"
    using assms row_fits [OF k] by simp_all
  thus ?case
    using Suc by (simp add: Let_def)
qed

lemma nth_copy_rows:
  assumes "cnt \<le> dstStride" and "cnt \<le> srcStride"
    and "length dst = H * dstStride" and "length src = H * srcStride"
  shows "k \<le> H \<Longrightarrow> r < k \<Longrightarrow> c < cnt \<Longrightarrow>
           copy_rows cnt dstStride srcStride src dst k ! (r * dstStride + c) =
             src ! (r * srcStride + c)"
proof (induction k)
  case 0
  thus ?case by simp
next
  case (Suc k)
  let ?cur = "copy_rows cnt dstStride srcStride src dst k"
  have k: "k < H" using Suc.prems by simp
  have len: "length ?cur = length dst"
    using k by (intro length_copy_rows [OF assms]) simp
  have fit: "k * dstStride + cnt \<le> length dst" "k * srcStride + cnt \<le> length src"
    using assms row_fits [OF k] by simp_all
  show ?case
  proof (cases "r = k")
    case True
    have "(take (k * dstStride) ?cur @ take cnt (drop (k * srcStride) src)
             @ drop (k * dstStride + cnt) ?cur) ! (k * dstStride + c) =
          (take cnt (drop (k * srcStride) src) @ drop (k * dstStride + cnt) ?cur) ! c"
      using fit len by (simp add: nth_append)
    also have "\<dots> = src ! (k * srcStride + c)"
      using fit Suc.prems(3) by (simp add: nth_append)
    finally show ?thesis
      using True by (simp add: Let_def)
  next
    case False
    hence r: "r < k" using Suc.prems by simp
    have "r * dstStride + c < r * dstStride + cnt"
      using Suc.prems(3) by simp
    also have "\<dots> \<le> k * dstStride"
      using row_fits [OF r assms(1)] .
    finally have inside: "r * dstStride + c < k * dstStride" .
    hence "(take (k * dstStride) ?cur @ take cnt (drop (k * srcStride) src)
             @ drop (k * dstStride + cnt) ?cur) ! (r * dstStride + c) =
           ?cur ! (r * dstStride + c)"
      using fit len by (simp add: nth_append)
    also have "\<dots> = src ! (r * srcStride + c)"
      using k r Suc.prems(3) by (intro Suc.IH) simp_all
    finally show ?thesis
      by (simp add: Let_def)
  qed
qed



lemma memcpy_row_to_device:
  assumes "bufs d p = Some buf" and "length buf = H * W" and "length src = H * RS"
    and "W \<le> RS" and "k < H"
  shows "cudaMemcpy_HostToDevice (device_after_rows d p W RS src buf k) (Some p) (k * W) src
           (k * RS) W =
         (cudaSuccess, device_after_rows d p W RS src buf (Suc k))"
proof -
  have len: "length (copy_rows W W RS src buf k) = length buf"
    using assms by (intro length_copy_rows [where H = H]) simp_all
  have "k * W + W \<le> length buf" and "k * RS + W \<le> length src"
    using assms row_fits [OF assms(5), of W W] row_fits [OF assms(5) assms(4)] by simp_all
  thus ?thesis
    using len by (simp add: cudaMemcpy_HostToDevice_def device_after_rows_def Let_def)
qed

lemma Convert_to_device_rows_run:
  assumes "data out = Some p" and "bufs d p = Some buf" and "length buf = H * W"
    and "length (data_host inp) = H * RS" and "W \<le> RS" and "0 < RS"
    and "unat (width out) = W" and "unat rowSizeIn = RS" and "unat rowSizeOut = W"
  shows "k + j = H \<Longrightarrow>
         Convert_to_device_rows inp out rowSizeIn rowSizeOut (H * RS) (k * RS) (k * W)
           (device_after_rows d p W RS (data_host inp) buf k) =
         Some (Inr (), device_after_rows d p W RS (data_host inp) buf H)"
proof (induction j arbitrary: k)
  case 0
  thus ?case
    by (subst Convert_to_device_rows.simps) simp
next
  case (Suc j)
  hence k: "k < H" and nxt: "Suc k + j = H"
    by simp_all
  have ne: "k * RS \<noteq> H * RS"
    using k assms(6) by simp
  note step = memcpy_row_to_device [OF assms(2,3,4,5) k]
  have "Convert_to_device_rows inp out rowSizeIn rowSizeOut (H * RS) (k * RS) (k * W)
           (device_after_rows d p W RS (data_host inp) buf k) =
        Convert_to_device_rows inp out rowSizeIn rowSizeOut (H * RS) (Suc k * RS) (Suc k * W)
           (device_after_rows d p W RS (data_host inp) buf (Suc k))"
    by (subst Convert_to_device_rows.simps) (use k assms(6) in \<open>simp add: assms(1,7,8,9) step add.commute\<close>)
  thus ?case
    using Suc.IH [OF nxt] by simp
qed


lemma memcpy_row_to_host:
  assumes "bufs d p = Some buf" and "length buf = H * W" and "length (data_host out) = H * RS"
    and "W \<le> RS" and "k < H"
  shows "cudaMemcpy_DeviceToHost (device_after_reads d p W k)
           (data_host (host_after_rows out W RS buf k)) (k * RS) (Some p) (k * W) W =
         (cudaSuccess, data_host (host_after_rows out W RS buf (Suc k)),
          device_after_reads d p W (Suc k))"
proof -
  have len: "length (copy_rows W RS W buf (data_host out) k) = length (data_host out)"
    using assms by (intro length_copy_rows [where H = H]) simp_all
  have "k * W + W \<le> length buf" and "k * RS + W \<le> length (data_host out)"
    using assms row_fits [OF assms(5), of W W] row_fits [OF assms(5) assms(4)] by simp_all
  thus ?thesis
    using len assms(1)
    by (simp add: cudaMemcpy_DeviceToHost_def device_after_reads_def host_after_rows_def Let_def)
qed

lemma Convert_from_device_rows_run:
  assumes "data inp = Some p" and "bufs d p = Some buf" and "length buf = H * W"
    and "length (data_host out) = H * RS" and "W \<le> RS" and "0 < RS"
    and "unat (width inp) = W" and "unat rowSizeIn = W" and "unat rowSizeOut = RS"
  shows "k + j = H \<Longrightarrow>
         Convert_from_device_rows inp rowSizeIn rowSizeOut (H * RS) (k * RS) (k * W)
           (host_after_rows out W RS buf k) (device_after_reads d p W k) =
         Some (Inr (), host_after_rows out W RS buf H, device_after_reads d p W H)"
proof (induction j arbitrary: k)
  case 0
  thus ?case
    by (subst Convert_from_device_rows.simps) simp
next
  case (Suc j)
  hence k: "k < H" and nxt: "Suc k + j = H"
    by simp_all
  note step = memcpy_row_to_host [OF assms(2,3,4,5) k]
  have upd: "(host_after_rows out W RS buf k)
               \<lparr>data_host := data_host (host_after_rows out W RS buf (Suc k))\<rparr> =
             host_after_rows out W RS buf (Suc k)"
    by (simp add: host_after_rows_def)
  have "Convert_from_device_rows inp rowSizeIn rowSizeOut (H * RS) (k * RS) (k * W)
           (host_after_rows out W RS buf k) (device_after_reads d p W k) =
        Convert_from_device_rows inp rowSizeIn rowSizeOut (H * RS) (Suc k * RS) (Suc k * W)
           (host_after_rows out W RS buf (Suc k)) (device_after_reads d p W (Suc k))"
    by (subst Convert_from_device_rows.simps)
      (use k assms(6) in \<open>simp add: assms(1,7,8,9) step upd add.commute\<close>)
  thus ?case
    using Suc.IH [OF nxt] by simp
qed

lemma valid_hostD:
  assumes "valid_host img" and "unat (height_host img) * unat (rowSize img) < 2 ^ 32"
  shows "\<not> empty_host img" and "unat (width_host img) \<le> unat (rowSize img)"
    and "0 < unat (rowSize img)"
    and "unat (height_host img * rowSize img) = unat (height_host img) * unat (rowSize img)"
    and "length (data_host img) = unat (height_host img) * unat (rowSize img)"
proof -
  from assms have nz: "width_host img \<noteq> 0" "height_host img \<noteq> 0"
    and le: "width_host img \<le> rowSize img"
    and len: "length (data_host img) = unat (height_host img) * unat (rowSize img)"
    by (simp_all add: valid_host_def)
  show "\<not> empty_host img"
    using nz by (simp add: empty_host_def)
  show w: "unat (width_host img) \<le> unat (rowSize img)"
    using le by (simp add: word_le_nat_alt)
  have "0 < unat (width_host img)"
    using nz(1) by (simp add: unat_gt_0)
  thus "0 < unat (rowSize img)"
    using w by simp
  show "unat (height_host img * rowSize img) = unat (height_host img) * unat (rowSize img)"
    using assms(2) by (simp add: unat_mult_lem [THEN iffD1])
  show "length (data_host img) = unat (height_host img) * unat (rowSize img)"
    by (rule len)
qed

text \<open>
  When the \<open>height * rowSize\<close> bytes of the host image are fewer than \<open>2^32\<close>, both loops
  return after \<open>height\<close> row copies.
\<close>

lemma Convert_to_device_valid:
  assumes "valid_host inp" and "valid_image d out"
    and "width_host inp = width out" and "height_host inp = height out"
    and "data out = Some p" and "bufs d p = Some buf"
    and "unat (height_host inp) * unat (rowSize inp) < 2 ^ 32"
  shows "Convert_to_device d inp out =
         Some (Inr (), device_after_rows d p (unat (width out)) (unat (rowSize inp))
                         (data_host inp) buf (unat (height out)))"
proof -
  note h = valid_hostD [OF assms(1,7)]
  from assms(2) have ne: "\<not> empty out"
    and len: "length buf = unat (height out) * unat (width out)"
    using assms(5,6) by (simp_all add: valid_image_def empty_def mult.commute)
  have start: "device_after_rows d p (unat (width out)) (unat (rowSize inp)) (data_host inp) buf 0 = d"
    using assms(6) by (simp add: device_after_rows_def map_upd_triv)
  have "Convert_to_device_rows inp out (rowSize inp) (width out)
          (unat (height out) * unat (rowSize inp)) (0 * unat (rowSize inp)) (0 * unat (width out))
          (device_after_rows d p (unat (width out)) (unat (rowSize inp)) (data_host inp) buf 0) =
        Some (Inr (), device_after_rows d p (unat (width out)) (unat (rowSize inp))
                         (data_host inp) buf (unat (height out)))"
    by (rule Convert_to_device_rows_run [OF assms(5,6) len])
      (use h assms(3,4) in simp_all)
  thus ?thesis
    using h(1,4) ne assms(3,4) start
    by (simp add: Convert_to_device_def ParameterValidation_host_def ParameterValidation1_def)
qed

lemma Convert_from_device_valid:
  assumes "valid_host out" and "valid_image d inp"
    and "width inp = width_host out" and "height inp = height_host out"
    and "data inp = Some p" and "bufs d p = Some buf"
    and "unat (height_host out) * unat (rowSize out) < 2 ^ 32"
  shows "Convert_from_device d inp out =
         Some (Inr (),
               host_after_rows out (unat (width inp)) (unat (rowSize out)) buf (unat (height inp)),
               device_after_reads d p (unat (width inp)) (unat (height inp)))"
proof -
  note h = valid_hostD [OF assms(1,7)]
  from assms(2) have ne: "\<not> empty inp"
    and len: "length buf = unat (height inp) * unat (width inp)"
    using assms(5,6) by (simp_all add: valid_image_def empty_def mult.commute)
  have start: "host_after_rows out (unat (width inp)) (unat (rowSize out)) buf 0 = out"
    "device_after_reads d p (unat (width inp)) 0 = d"
    by (simp_all add: host_after_rows_def device_after_reads_def)
  have "Convert_from_device_rows inp (width inp) (rowSize out)
          (unat (height inp) * unat (rowSize out)) (0 * unat (rowSize out)) (0 * unat (width inp))
          (host_after_rows out (unat (width inp)) (unat (rowSize out)) buf 0)
          (device_after_reads d p (unat (width inp)) 0) =
        Some (Inr (),
              host_after_rows out (unat (width inp)) (unat (rowSize out)) buf (unat (height inp)),
              device_after_reads d p (unat (width inp)) (unat (height inp)))"
    by (rule Convert_from_device_rows_run [OF assms(5,6) len])
      (use h assms(3,4) in simp_all)
  thus ?thesis
    using h(1,4) ne assms(3,4) start
    by (simp add: Convert_from_device_def ParameterValidation_host_def ParameterValidation1_def)
qed


lemma valid_hosts: "valid_host hostP" "valid_host hostQ"
  by (simp_all add: valid_host_def hostP_def hostQ_def)

lemma eval_Convert:
  "map_option fst (Convert_to_device dev1 hostP imgD) = Some (Inr ())"
  by (simp add: Convert_to_device_def Convert_to_device_rows.simps ParameterValidation_host_def
      empty_host_def cudaMemcpy_HostToDevice_def hostP_def eval_defs)

section \<open>Properties\<close>

subsection \<open>Negative arguments of GammaCorrection\<close>

text \<open>
  C1, as stated: with \<open>a < 0\<close> or \<open>gamma < 0\<close> both forms of \<open>GammaCorrection\<close> fail before any
  device resource is touched. The allocating form does not: it checks \<open>a\<close> and \<open>gamma\<close>
  only inside the in-place form, which it calls after constructing the output image. On
  the example device, with \<open>a = -1\<close>, it allocates a one-byte image and releases it again.
\<close>

theorem GammaCorrection_allocates_before_check:
  "less_zero (Finite (- 1))
   \<and> GammaCorrection lut_id dev1 imgC (Finite (- 1)) (Finite 1) =
       (Inl bad_input, dev1\<lparr>next_ptr := 5, trace := [Malloc 4 1, Free 4]\<rparr>)
   \<and> trace dev1 = []"
  by (simp add: GammaCorrection_def GammaCorrection_inplace_def eval_defs)

text \<open>
  C1, amended. With \<open>a < 0\<close> or \<open>gamma < 0\<close>: the in-place form fails with the exception for
  bad input and leaves the device as it was, whatever the images are. The allocating form
  launches no kernel either. For an empty input it leaves the device as it was. For a
  non-empty input it constructs the output image first: when the allocation is refused
  it fails with \<open>AllocationFailure\<close>; otherwise it fails with the exception for bad input,
  and the trace of the device has grown by the allocation and the release of the output
  image, and by nothing else.
\<close>

theorem GammaCorrection_negative:
  assumes "less_zero a \<or> less_zero gamma"
  shows "GammaCorrection_inplace lut d inp out a gamma = (Inl bad_input, d)
       \<and> (empty inp \<longrightarrow> GammaCorrection lut d inp a gamma = (Inl bad_input, d))
       \<and> (\<not> empty inp \<and> free_bytes d < unat (width inp) * unat (height inp) \<longrightarrow>
            GammaCorrection lut d inp a gamma =
              (Inl AllocationFailure,
               d\<lparr>trace := trace d @ [MallocFailed (unat (width inp) * unat (height inp))]\<rparr>))
       \<and> (\<not> empty inp \<and> unat (width inp) * unat (height inp) \<le> free_bytes d \<and> valid_device d \<longrightarrow>
            GammaCorrection lut d inp a gamma =
              (Inl bad_input,
               d\<lparr>next_ptr := Suc (next_ptr d),
                 trace := trace d @ [Malloc (next_ptr d) (unat (width inp) * unat (height inp)),
                                     Free (next_ptr d)]\<rparr>))"
proof (intro conjI impI)
  show "GammaCorrection_inplace lut d inp out a gamma = (Inl bad_input, d)"
    using assms by (rule GammaCorrection_inplace_negative)
next
  assume "empty inp"
  thus "GammaCorrection lut d inp a gamma = (Inl bad_input, d)"
    by (simp add: GammaCorrection_def ParameterValidation1_def)
next
  assume "\<not> empty inp \<and> free_bytes d < unat (width inp) * unat (height inp)"
  thus "GammaCorrection lut d inp a gamma =
          (Inl AllocationFailure,
           d\<lparr>trace := trace d @ [MallocFailed (unat (width inp) * unat (height inp))]\<rparr>)"
    by (simp add: GammaCorrection_def ParameterValidation1_def with_output_def ImageCuda_new_def
        empty_def)
next
  assume h: "\<not> empty inp \<and> unat (width inp) * unat (height inp) \<le> free_bytes d \<and> valid_device d"
  obtain r d1 where new: "ImageCuda_new d (width inp) (height inp) = (r, d1)"
    by (cases "ImageCuda_new d (width inp) (height inp)")
  from h have nz: "width inp \<noteq> 0" "height inp \<noteq> 0"
    by (simp_all add: empty_def)
  note nd = new_then_delete [OF nz _ _ new]
  show "GammaCorrection lut d inp a gamma =
          (Inl bad_input,
           d\<lparr>next_ptr := Suc (next_ptr d),
             trace := trace d @ [Malloc (next_ptr d) (unat (width inp) * unat (height inp)),
                                 Free (next_ptr d)]\<rparr>)"
    using h nd new assms
    by (simp add: GammaCorrection_def ParameterValidation1_def with_output_def
        GammaCorrection_inplace_negative)
qed

theorem GammaCorrection_negative_witness:
  "less_zero MinusInfinity
   \<and> GammaCorrection_inplace lut_id dev1 imgA imgB (Finite 2) MinusInfinity = (Inl bad_input, dev1)
   \<and> GammaCorrection lut_id dev1 img0 (Finite 2) MinusInfinity = (Inl bad_input, dev1)
   \<and> GammaCorrection lut_id (dev1\<lparr>free_bytes := 2\<rparr>) imgA (Finite 2) MinusInfinity =
       (Inl AllocationFailure, dev1\<lparr>free_bytes := 2, trace := [MallocFailed 3]\<rparr>)
   \<and> GammaCorrection lut_id dev1 imgA (Finite 2) MinusInfinity =
       (Inl bad_input, dev1\<lparr>next_ptr := 5, trace := [Malloc 4 3, Free 4]\<rparr>)"
  using GammaCorrection_negative [of "Finite 2" MinusInfinity lut_id dev1 imgA imgB]
    GammaCorrection_negative [of "Finite 2" MinusInfinity lut_id dev1 img0]
    GammaCorrection_negative [of "Finite 2" MinusInfinity lut_id "dev1\<lparr>free_bytes := 2\<rparr>" imgA]
    valid_dev1(1)
  by (simp add: empty_def imgA_def img0_def dev1_def)

subsection \<open>The launch configuration at the end of the range\<close>

text \<open>
  C2. The policy is meant to return \<open>(n, 1)\<close> below 256 and \<open>(256, ceil (n / 256))\<close>
  otherwise, so that \<open>threadsPerBlock * blocksPerGrid \<ge> n\<close>. At the element count
  \<open>n = 2^32 - 1\<close> the sum \<open>size + threadsPerBlock - 1\<close> wraps to 254: the code returns
  \<open>blocksPerGrid = 0\<close> where \<open>ceil (n / 256) = 16777216\<close>, and the grid of
  \<open>256 * 0 = 0\<close> threads does not cover the \<open>n\<close> elements.
\<close>

theorem getKernelParameters_wraps:
  "getKernelParameters 4294967295 = (256, 0)
   \<and> (4294967295 + 255) div 256 = (16777216 :: nat)
   \<and> sint (fst (getKernelParameters 4294967295)) * sint (snd (getKernelParameters 4294967295))
       < uint (4294967295 :: u32)"
  by (simp add: getKernelParameters_def)

subsection \<open>Saturating subtraction\<close>

lemma saturating_pixel:
  fixes a b r :: u8
  assumes "r = (if a > b then a - b else 0)"
  shows "r = (if a \<le> b then 0 else a - b) \<and> unat r = unat a - unat b \<and> unat r \<le> 255"
proof (cases "a > b")
  case True
  hence "b \<le> a"
    by simp
  hence "unat (a - b) = unat a - unat b"
    by (rule unat_sub)
  moreover have "unat (a - b) < 2 ^ 8"
    using unsigned_less [of "a - b"] by simp
  ultimately show ?thesis
    using True assms by auto
next
  case False
  hence "unat a \<le> unat b"
    by (simp add: word_less_nat_alt)
  thus ?thesis
    using False assms by auto
qed

lemma eval_Subtract:
  "fst (Subtract dev1 imgA imgB) = Inr \<lparr>width = 3, height = 1, data = Some 4\<rparr>"
  "fst (Subtract_inplace dev1 imgA imgB imgA) = Inr ()"
  by (simp_all add: Subtract_def Subtract_inplace_def subtract_def eval_defs)

text \<open>
  Images of fewer than \<open>2^32\<close> pixels. On a valid device, for valid images \<open>A\<close> and \<open>B\<close>:
  when \<open>Subtract\<close> returns an image, it has \<open>width * height\<close> pixels, and pixel \<open>i\<close> is 0
  where \<open>A[i] \<le> B[i]\<close> and \<open>A[i] - B[i]\<close> otherwise. As a number it is the truncated
  difference of the numbers \<open>A[i]\<close> and \<open>B[i]\<close>, so it never wraps, and it is at most 255.
  The same holds for the in-place form and its output image \<open>C\<close>, which may be \<open>A\<close> or \<open>B\<close>
  itself; the pixels of \<open>A\<close> and \<open>B\<close> are those before the call. The allocating form
  does return an image when the images have the same dimensions, the device has the
  memory and there are at most \<open>2^32 - 256\<close> pixels; so does the in-place form, whatever
  memory is free.
\<close>

lemma Subtract_saturating_below_2_32:
  assumes "valid_device d" and "valid_image d A" and "valid_image d B"
    and "unat (width A) * unat (height A) < 2 ^ 32"
  shows "(Subtract d A B = (Inr out, d') \<longrightarrow>
            length (pixels d' out) = unat (width A) * unat (height A) \<and>
            (\<forall>i < unat (width A) * unat (height A).
               pixels d' out ! i =
                 (if pixels d A ! i \<le> pixels d B ! i then 0 else pixels d A ! i - pixels d B ! i)
               \<and> unat (pixels d' out ! i) = unat (pixels d A ! i) - unat (pixels d B ! i)
               \<and> unat (pixels d' out ! i) \<le> 255))
       \<and> (valid_image d C \<and> unat (width C) * unat (height C) < 2 ^ 32
            \<and> Subtract_inplace d A B C = (Inr (), d'') \<longrightarrow>
            length (pixels d'' C) = unat (width C) * unat (height C) \<and>
            (\<forall>i < unat (width C) * unat (height C).
               pixels d'' C ! i =
                 (if pixels d A ! i \<le> pixels d B ! i then 0 else pixels d A ! i - pixels d B ! i)
               \<and> unat (pixels d'' C ! i) = unat (pixels d A ! i) - unat (pixels d B ! i)
               \<and> unat (pixels d'' C ! i) \<le> 255))
       \<and> (width A = width B \<and> height A = height B
            \<and> unat (width A) * unat (height A) \<le> free_bytes d
            \<and> unat (width A) * unat (height A) \<le> 2 ^ 32 - 256 \<longrightarrow>
            (\<exists>res. fst (Subtract d A B) = Inr res))
       \<and> (valid_image d C \<and> width A = width B \<and> height A = height B
            \<and> width A = width C \<and> height A = height C
            \<and> unat (width C) * unat (height C) \<le> 2 ^ 32 - 256 \<longrightarrow>
            fst (Subtract_inplace d A B C) = Inr ())"
proof (intro conjI impI)
  assume "width A = width B \<and> height A = height B
            \<and> unat (width A) * unat (height A) \<le> free_bytes d
            \<and> unat (width A) * unat (height A) \<le> 2 ^ 32 - 256"
  hence a: "width A = width B" "height A = height B"
    "unat (width A) * unat (height A) \<le> 2 ^ 32 - 256"
    "unat (width A) * unat (height A) \<le> free_bytes d"
    by blast+
  show "\<exists>res. fst (Subtract d A B) = Inr res"
    unfolding Subtract_binary by (rule binary_alloc_returns [OF assms(1,2,3) a])
next
  assume "valid_image d C \<and> width A = width B \<and> height A = height B
            \<and> width A = width C \<and> height A = height C
            \<and> unat (width C) * unat (height C) \<le> 2 ^ 32 - 256"
  hence a: "valid_image d C" "width A = width B" "height A = height B"
    "width A = width C" "height A = height C"
    "unat (width C) * unat (height C) \<le> 2 ^ 32 - 256"
    by blast+
  show "fst (Subtract_inplace d A B C) = Inr ()"
    unfolding Subtract_inplace_binary by (rule binary_inplace_returns [OF assms(2,3) a])
next
  assume run: "Subtract d A B = (Inr out, d')"
  note r = binary_alloc_pixels [OF assms run [unfolded Subtract_binary]]
  show "length (pixels d' out) = unat (width A) * unat (height A)"
    by (simp add: r(1,2,3))
  show "\<forall>i < unat (width A) * unat (height A).
               pixels d' out ! i =
                 (if pixels d A ! i \<le> pixels d B ! i then 0 else pixels d A ! i - pixels d B ! i)
               \<and> unat (pixels d' out ! i) = unat (pixels d A ! i) - unat (pixels d B ! i)
               \<and> unat (pixels d' out ! i) \<le> 255"
  proof (intro allI impI)
    fix i
    assume "i < unat (width A) * unat (height A)"
    hence "pixels d' out ! i =
             (if pixels d A ! i > pixels d B ! i then pixels d A ! i - pixels d B ! i else 0)"
      by (simp add: r(1,2,3))
    thus "pixels d' out ! i =
                 (if pixels d A ! i \<le> pixels d B ! i then 0 else pixels d A ! i - pixels d B ! i)
               \<and> unat (pixels d' out ! i) = unat (pixels d A ! i) - unat (pixels d B ! i)
               \<and> unat (pixels d' out ! i) \<le> 255"
      by (rule saturating_pixel)
  qed
next
  assume "valid_image d C \<and> unat (width C) * unat (height C) < 2 ^ 32
            \<and> Subtract_inplace d A B C = (Inr (), d'')"
  hence C: "valid_image d C" and small: "unat (width C) * unat (height C) < 2 ^ 32"
    and run: "Subtract_inplace d A B C = (Inr (), d'')"
    by simp_all
  note r = binary_inplace_pixels [OF assms(2,3) C small run [unfolded Subtract_inplace_binary]]
  show "length (pixels d'' C) = unat (width C) * unat (height C)"
    by (simp add: r)
  show "\<forall>i < unat (width C) * unat (height C).
               pixels d'' C ! i =
                 (if pixels d A ! i \<le> pixels d B ! i then 0 else pixels d A ! i - pixels d B ! i)
               \<and> unat (pixels d'' C ! i) = unat (pixels d A ! i) - unat (pixels d B ! i)
               \<and> unat (pixels d'' C ! i) \<le> 255"
  proof (intro allI impI)
    fix i
    assume "i < unat (width C) * unat (height C)"
    hence "pixels d'' C ! i =
             (if pixels d A ! i > pixels d B ! i then pixels d A ! i - pixels d B ! i else 0)"
      by (simp add: r)
    thus "pixels d'' C ! i =
                 (if pixels d A ! i \<le> pixels d B ! i then 0 else pixels d A ! i - pixels d B ! i)
               \<and> unat (pixels d'' C ! i) = unat (pixels d A ! i) - unat (pixels d B ! i)
               \<and> unat (pixels d'' C ! i) \<le> 255"
      by (rule saturating_pixel)
  qed
qed

text \<open>
  The lemma on the example device, whose images have 3 pixels.
\<close>

lemma Subtract_saturating_example:
  "valid_device dev1 \<and> valid_image dev1 imgA \<and> valid_image dev1 imgB
   \<and> fst (Subtract dev1 imgB imgA) = Inr \<lparr>width = 3, height = 1, data = Some 4\<rparr>
   \<and> pixels (snd (Subtract dev1 imgB imgA)) \<lparr>width = 3, height = 1, data = Some 4\<rparr> ! 0 = 245
   \<and> pixels (snd (Subtract dev1 imgB imgA)) \<lparr>width = 3, height = 1, data = Some 4\<rparr> ! 1 = 0
   \<and> pixels (snd (Subtract dev1 imgB imgA)) \<lparr>width = 3, height = 1, data = Some 4\<rparr> ! 2 = 140
   \<and> fst (Subtract_inplace dev1 imgA imgB imgA) = Inr ()
   \<and> pixels (snd (Subtract_inplace dev1 imgA imgB imgA)) imgA ! 0 = 0
   \<and> pixels (snd (Subtract_inplace dev1 imgA imgB imgA)) imgA ! 1 = 20
   \<and> pixels (snd (Subtract_inplace dev1 imgA imgB imgA)) imgA ! 2 = 0"
proof -
  let ?out = "\<lparr>width = 3, height = 1, data = Some 4\<rparr>"
  have 1: "Subtract dev1 imgB imgA = (Inr ?out, snd (Subtract dev1 imgB imgA))"
    by (simp add: prod_eq_iff Subtract_def Subtract_inplace_def subtract_def eval_defs)
  have small: "unat (width imgA) * unat (height imgA) < 2 ^ 32"
    "unat (width imgB) * unat (height imgB) < 2 ^ 32"
    by (simp_all add: imgA_def imgB_def)
  have 2: "valid_image dev1 imgA \<and> unat (width imgA) * unat (height imgA) < 2 ^ 32
             \<and> Subtract_inplace dev1 imgA imgB imgA =
                 (Inr (), snd (Subtract_inplace dev1 imgA imgB imgA))"
    using small by (simp add: prod_eq_iff eval_Subtract valid_dev1)
  have n: "unat (width imgA) * unat (height imgA) = 3" "unat (width imgB) * unat (height imgB) = 3"
    by (simp_all add: imgA_def imgB_def)
  note alloc = Subtract_saturating_below_2_32 [OF valid_dev1(1,3,2) small(2), THEN conjunct1, THEN mp, OF 1,
      THEN conjunct2, rule_format, unfolded n pixels_dev1]
  note inplace = Subtract_saturating_below_2_32 [OF valid_dev1(1,2,3) small(1), THEN conjunct2, THEN conjunct1,
      THEN mp, OF 2, THEN conjunct2, rule_format, unfolded n pixels_dev1]
  have "fst (Subtract dev1 imgB imgA) = Inr ?out"
    using 1 by (simp add: prod_eq_iff)
  thus ?thesis
    using alloc [of 0] alloc [of 1] alloc [of 2] inplace [of 0] inplace [of 1] inplace [of 2]
      eval_Subtract(2) valid_dev1(1,2,3)
    by simp
qed

text \<open>
  C3. \<open>Subtract\<close> is meant to produce, for valid images \<open>A\<close> and \<open>B\<close> of the same size and
  at every index \<open>i\<close>, 0 where \<open>A[i] \<le> B[i]\<close> and \<open>A[i] - B[i]\<close> otherwise. It does not on
  images of \<open>2^32\<close> pixels or more. \<open>A\<close>, \<open>B\<close> and \<open>C\<close> are valid images of 65537 x 65537
  pixels, all 5 in \<open>A\<close>, all 3 in \<open>B\<close> and all 9 in \<open>C\<close>. The element count
  \<^verbatim>\<open>width() * height()\<close> is 131073 in \<^verbatim>\<open>uint32_t\<close>. The in-place \<open>Subtract\<close> returns normally;
  pixel 131072 of \<open>C\<close> is the difference 2, and pixel 131073 is still 9. The allocating
  \<open>Subtract\<close> returns an image whose pixel 131073 is the uninitialised byte of the
  allocation, here 0.
\<close>

theorem Subtract_stops_at_wrapped_count:
  "valid_image devBig bigA \<and> valid_image devBig bigB \<and> valid_image devBig bigC
   \<and> width bigA = width bigB \<and> height bigA = height bigB
   \<and> width bigA = width bigC \<and> height bigA = height bigC
   \<and> pixels devBig bigA ! 131073 = 5 \<and> pixels devBig bigB ! 131073 = 3
   \<and> fst (Subtract_inplace devBig bigA bigB bigC) = Inr ()
   \<and> pixels (snd (Subtract_inplace devBig bigA bigB bigC)) bigC ! 131072 = 2
   \<and> pixels (snd (Subtract_inplace devBig bigA bigB bigC)) bigC ! 131073 = 9
   \<and> fst (Subtract devBig bigA bigB) = Inr \<lparr>width = 65537, height = 65537, data = Some 4\<rparr>
   \<and> pixels (snd (Subtract devBig bigA bigB)) \<lparr>width = 65537, height = 65537, data = Some 4\<rparr>
       ! 131072 = 2
   \<and> pixels (snd (Subtract devBig bigA bigB)) \<lparr>width = 65537, height = 65537, data = Some 4\<rparr>
       ! 131073 = 0"
proof -
  let ?f = "\<lambda>a b :: u8. if a > b then a - b else 0"
  let ?out = "\<lparr>width = 65537, height = 65537, data = Some 4\<rparr>"
  have dims: "width bigA = 65537" "height bigA = 65537" "width bigB = 65537" "height bigB = 65537"
    "width bigC = 65537" "height bigC = 65537" "data bigC = Some 2"
    by (simp_all add: bigA_def bigB_def bigC_def)
  have dev: "next_ptr devBig = 4" "free_bytes devBig = 2 ^ 34" "uninit devBig = (\<lambda>_. 0)"
    by (simp_all add: devBig_def)
  have inplace: "binary_inplace ''subtract'' ?f devBig bigA bigB bigC =
      (Inr (), devBig\<lparr>trace := trace devBig @ [Launch ''subtract''
                  (snd (getKernelParameters (65537 * 65537))) (fst (getKernelParameters (65537 * 65537)))],
         bufs := (bufs devBig)(2 \<mapsto> progress ?f (replicate 4295098369 5) (replicate 4295098369 3)
                                      (replicate 4295098369 9) 131073)\<rparr>)"
    unfolding binary_inplace_eq [OF valid_devBig(2,3,4)] dims pixels_devBig count_big
    by simp
  have alloc: "binary_alloc ''subtract'' ?f devBig bigA bigB =
      (Inr ?out, devBig\<lparr>bufs := (bufs devBig)(4 \<mapsto>
                   progress ?f (replicate 4295098369 5) (replicate 4295098369 3)
                     (map (\<lambda>_. 0) [0..<4295098369]) 131073),
                 next_ptr := 5, free_bytes := 2 ^ 34 - 4295098369,
                 trace := trace devBig @ [Malloc 4 4295098369, Launch ''subtract''
                  (snd (getKernelParameters (65537 * 65537)))
                  (fst (getKernelParameters (65537 * 65537)))]\<rparr>)"
    unfolding binary_alloc_eq [OF valid_devBig(1,2,3)] dims pixels_devBig count_big dev Let_def
    by simp
  have px: "progress ?f (replicate 4295098369 5) (replicate 4295098369 3)
              (replicate 4295098369 9) 131073 ! 131072 = 2"
    "progress ?f (replicate 4295098369 5) (replicate 4295098369 3)
              (replicate 4295098369 9) 131073 ! 131073 = 9"
    "progress ?f (replicate 4295098369 5) (replicate 4295098369 3)
              (map (\<lambda>_. 0) [0..<4295098369]) 131073 ! 131072 = 2"
    "progress ?f (replicate 4295098369 5) (replicate 4295098369 3)
              (map (\<lambda>_. 0) [0..<4295098369]) 131073 ! 131073 = 0"
    by (simp_all add: progress_nth uninit_nth del: upt_rec_numeral)
  have AB: "pixels devBig bigA ! 131073 = 5" "pixels devBig bigB ! 131073 = 3"
    by (simp_all add: pixels_devBig)
  have C: "pixels (snd (binary_inplace ''subtract'' ?f devBig bigA bigB bigC)) bigC =
             progress ?f (replicate 4295098369 5) (replicate 4295098369 3)
               (replicate 4295098369 9) 131073"
    unfolding inplace by (simp add: pixels_def dims)
  have out: "pixels (snd (binary_alloc ''subtract'' ?f devBig bigA bigB)) ?out =
               progress ?f (replicate 4295098369 5) (replicate 4295098369 3)
                 (map (\<lambda>_. 0) [0..<4295098369]) 131073"
    unfolding alloc by (simp add: pixels_def)
  show ?thesis
    unfolding Subtract_inplace_binary Subtract_binary C out px
    using valid_devBig(2,3,4) AB by (simp add: inplace alloc dims)
qed
subsection \<open>Dimension mismatch\<close>

text \<open>
  C5. When two images differ in width or in height, each of the seven binary operations,
  in both forms, fails with the exception for bad input and returns the device as it
  was: nothing was allocated and no kernel was launched.
\<close>

theorem dimension_mismatch_fails:
  assumes "width in1 \<noteq> width in2 \<or> height in1 \<noteq> height in2"
  shows "AbsoluteDifference d in1 in2 = (Inl bad_input, d)
       \<and> AbsoluteDifference_inplace d in1 in2 out = (Inl bad_input, d)
       \<and> BitwiseAnd d in1 in2 = (Inl bad_input, d)
       \<and> BitwiseAnd_inplace d in1 in2 out = (Inl bad_input, d)
       \<and> BitwiseOr d in1 in2 = (Inl bad_input, d)
       \<and> BitwiseOr_inplace d in1 in2 out = (Inl bad_input, d)
       \<and> BitwiseXor d in1 in2 = (Inl bad_input, d)
       \<and> BitwiseXor_inplace d in1 in2 out = (Inl bad_input, d)
       \<and> Maximum d in1 in2 = (Inl bad_input, d)
       \<and> Maximum_inplace d in1 in2 out = (Inl bad_input, d)
       \<and> Minimum d in1 in2 = (Inl bad_input, d)
       \<and> Minimum_inplace d in1 in2 out = (Inl bad_input, d)
       \<and> Subtract d in1 in2 = (Inl bad_input, d)
       \<and> Subtract_inplace d in1 in2 out = (Inl bad_input, d)"
proof -
  have 2: "ParameterValidation2 in1 in2 = Inl bad_input"
    using assms by (auto simp add: ParameterValidation2_def)
  have 3: "ParameterValidation3 in1 in2 out = Inl bad_input"
    using assms by (auto simp add: ParameterValidation3_def)
  show ?thesis
    by (simp add: 2 3 AbsoluteDifference_def AbsoluteDifference_inplace_def BitwiseAnd_def
        BitwiseAnd_inplace_def BitwiseOr_def BitwiseOr_inplace_def BitwiseXor_def
        BitwiseXor_inplace_def Maximum_def Maximum_inplace_def Minimum_def Minimum_inplace_def
        Subtract_def Subtract_inplace_def)
qed

theorem dimension_mismatch_fails_witness:
  "width imgA \<noteq> width imgC
   \<and> AbsoluteDifference dev1 imgA imgC = (Inl bad_input, dev1)
   \<and> BitwiseAnd_inplace dev1 imgA imgC imgA = (Inl bad_input, dev1)
   \<and> Subtract dev1 imgA imgC = (Inl bad_input, dev1)
   \<and> Maximum_inplace dev1 imgA imgC imgA = (Inl bad_input, dev1)"
  using dimension_mismatch_fails [of imgA imgC dev1 imgA]
  by (simp add: imgA_def imgC_def)

subsection \<open>Transfer round trip\<close>

text \<open>
  Host images of fewer than \<open>2^32\<close> bytes, padding counted. For a valid device image and
  valid host images \<open>hin\<close> and \<open>hout\<close> of its width and height, whatever their row sizes:
  converting \<open>hin\<close> to the device image returns, converting the device image to \<open>hout\<close>
  afterwards returns as well, and the host image that results has the dimensions and the
  row size of \<open>hout\<close> and, in every row and column of the image, the pixel of \<open>hin\<close>.
\<close>

lemma transfer_round_trip_below_2_32:
  assumes "valid_image d img" and "valid_host hin" and "valid_host hout"
    and "width_host hin = width img" and "height_host hin = height img"
    and "width_host hout = width img" and "height_host hout = height img"
    and "unat (height_host hin) * unat (rowSize hin) < 2 ^ 32"
    and "unat (height_host hout) * unat (rowSize hout) < 2 ^ 32"
  shows "\<exists>d1 d2 res.
           Convert_to_device d hin img = Some (Inr (), d1)
           \<and> Convert_from_device d1 img hout = Some (Inr (), res, d2)
           \<and> width_host res = width_host hout \<and> height_host res = height_host hout
           \<and> rowSize res = rowSize hout \<and> length (data_host res) = length (data_host hout)
           \<and> (\<forall>r < unat (height img). \<forall>c < unat (width img).
                 pixel_host res r c = pixel_host hin r c)"
proof -
  let ?W = "unat (width img)" and ?H = "unat (height img)"
  let ?RI = "unat (rowSize hin)" and ?RO = "unat (rowSize hout)"
  from assms(1) obtain p buf where p: "data img = Some p" "bufs d p = Some buf"
    and len: "length buf = ?H * ?W"
    by (auto simp add: valid_image_def mult.commute split: option.splits)
  note hi = valid_hostD [OF assms(2,8)]
  note ho = valid_hostD [OF assms(3,9)]
  let ?B = "copy_rows ?W ?W ?RI (data_host hin) buf ?H"
  let ?d1 = "device_after_rows d p ?W ?RI (data_host hin) buf ?H"
  let ?res = "host_after_rows hout ?W ?RO ?B ?H"
  let ?d2 = "device_after_reads ?d1 p ?W ?H"
  have lenB: "length ?B = ?H * ?W"
    using hi(2,5) assms(4,5) len by (simp add: length_copy_rows [where H = ?H])
  have to: "Convert_to_device d hin img = Some (Inr (), ?d1)"
    using assms(2,1,4,5) p assms(8) by (rule Convert_to_device_valid)
  have b1: "bufs ?d1 p = Some ?B"
    by (simp add: device_after_rows_def)
  have v1: "valid_image ?d1 img"
    using assms(1) p lenB by (simp add: valid_image_def device_after_rows_def mult.commute)
  have "Convert_from_device ?d1 img hout = Some (Inr (), ?res, ?d2)"
    using assms(3) v1 assms(6,7) [symmetric] p(1) b1 assms(9) by (rule Convert_from_device_valid)
  moreover have "length (data_host ?res) = length (data_host hout)"
    using ho(2,5) assms(6,7) lenB
    by (simp add: host_after_rows_def length_copy_rows [where H = ?H])
  moreover have "pixel_host ?res r c = pixel_host hin r c" if "r < ?H" and "c < ?W" for r c
  proof -
    have "pixel_host ?res r c = ?B ! (r * ?W + c)"
      unfolding pixel_host_def host_after_rows_def
      using ho(2,5) assms(6,7) lenB that
      by (simp add: nth_copy_rows [where H = ?H])
    also have "\<dots> = data_host hin ! (r * ?RI + c)"
      using hi(2,5) assms(4,5) len that
      by (simp add: nth_copy_rows [where H = ?H])
    finally show ?thesis
      by (simp add: pixel_host_def)
  qed
  ultimately show ?thesis
    using to by (intro exI [of _ ?d1] exI [of _ ?d2] exI [of _ ?res])
      (simp add: host_after_rows_def)
qed

text \<open>
  The lemma on the example device, with a padded and an unpadded host image of 2 x 2
  pixels, in both directions.
\<close>

lemma transfer_round_trip_example:
  "valid_image dev1 imgD \<and> valid_host hostP \<and> valid_host hostQ
   \<and> (\<exists>d1 d2 res.
         Convert_to_device dev1 hostP imgD = Some (Inr (), d1)
         \<and> Convert_from_device d1 imgD hostQ = Some (Inr (), res, d2)
         \<and> pixel_host res 0 0 = 1 \<and> pixel_host res 0 1 = 2
         \<and> pixel_host res 1 0 = 3 \<and> pixel_host res 1 1 = 4)
   \<and> (\<exists>d1 d2 res.
         Convert_to_device dev1 hostQ imgD = Some (Inr (), d1)
         \<and> Convert_from_device d1 imgD hostP = Some (Inr (), res, d2)
         \<and> rowSize res = 3 \<and> pixel_host res 1 1 = pixel_host hostQ 1 1)"
proof -
  have dims: "width_host hostP = width imgD" "height_host hostP = height imgD"
    "width_host hostQ = width imgD" "height_host hostQ = height imgD"
    by (simp_all add: hostP_def hostQ_def imgD_def)
  have n: "(0 :: nat) < unat (height imgD)" "(1 :: nat) < unat (height imgD)"
    "(0 :: nat) < unat (width imgD)" "(1 :: nat) < unat (width imgD)"
    by (simp_all add: imgD_def)
  have small: "unat (height_host hostP) * unat (rowSize hostP) < 2 ^ 32"
    "unat (height_host hostQ) * unat (rowSize hostQ) < 2 ^ 32"
    by (simp_all add: hostP_def hostQ_def)
  have px: "pixel_host hostP 0 0 = 1" "pixel_host hostP 0 1 = 2"
    "pixel_host hostP 1 0 = 3" "pixel_host hostP 1 1 = 4"
    by (simp_all add: pixel_host_def hostP_def)
  obtain d1 d2 res where 1: "Convert_to_device dev1 hostP imgD = Some (Inr (), d1)"
    "Convert_from_device d1 imgD hostQ = Some (Inr (), res, d2)"
    "\<forall>r < unat (height imgD). \<forall>c < unat (width imgD). pixel_host res r c = pixel_host hostP r c"
    using transfer_round_trip_below_2_32 [OF valid_dev1(5) valid_hosts(1,2) dims small] by blast
  obtain e1 e2 res' where 2: "Convert_to_device dev1 hostQ imgD = Some (Inr (), e1)"
    "Convert_from_device e1 imgD hostP = Some (Inr (), res', e2)"
    "rowSize res' = rowSize hostP"
    "\<forall>r < unat (height imgD). \<forall>c < unat (width imgD). pixel_host res' r c = pixel_host hostQ r c"
    using transfer_round_trip_below_2_32 [OF valid_dev1(5) valid_hosts(2,1) dims(3,4,1,2) small(2,1)] by blast
  have "pixel_host res 0 0 = 1 \<and> pixel_host res 0 1 = 2
         \<and> pixel_host res 1 0 = 3 \<and> pixel_host res 1 1 = 4"
    using 1(3) n px by simp
  moreover have "rowSize res' = 3 \<and> pixel_host res' 1 1 = pixel_host hostQ 1 1"
    using 2(3,4) n by (simp add: hostP_def)
  ultimately show ?thesis
    using 1(1,2) 2(1,2) valid_dev1(5) valid_hosts by blast
qed

text \<open>
  C6. Converting a host image to a device image of its dimensions and back is meant to
  give the pixels of the host image, padded or not. It does not on host images of \<open>2^32\<close>
  bytes or more. The device image is valid, 65535 pixels wide and 65537 high, all 0. The
  host image \<open>hostBig\<close> has the same width and height, rows of 65536 bytes and every byte
  7; \<open>hostBack\<close> has the same shape and every byte 1. The product
  \<^verbatim>\<open>in.height() * rowSizeIn\<close> is 65536 in \<^verbatim>\<open>uint32_t\<close>, one row. The conversion to the device
  returns normally after one copy of 65535 bytes, and the conversion back into \<open>hostBack\<close>
  returns normally after one copy too: in row 1, column 0, the host image sent has 7,
  the device image has 0 and the host image read back has kept its 1.
\<close>

theorem transfer_of_large_image_copies_one_row:
  "\<exists>d1 d2 res.
     valid_image devBig wideD \<and> valid_host hostBig \<and> valid_host hostBack
     \<and> width_host hostBig = width wideD \<and> height_host hostBig = height wideD
     \<and> width_host hostBack = width wideD \<and> height_host hostBack = height wideD
     \<and> Convert_to_device devBig hostBig wideD = Some (Inr (), d1)
     \<and> trace d1 = [MemcpyHostToDevice 3 0 65535]
     \<and> Convert_from_device d1 wideD hostBack = Some (Inr (), res, d2)
     \<and> trace d2 = [MemcpyHostToDevice 3 0 65535, MemcpyDeviceToHost 3 0 65535]
     \<and> pixel_host hostBig 0 0 = 7 \<and> pixels d1 wideD ! 0 = 7 \<and> pixel_host res 0 0 = 7
     \<and> pixel_host hostBig 1 0 = 7 \<and> pixels d1 wideD ! (1 * 65535 + 0) = 0
     \<and> pixel_host res 1 0 = 1"
proof -
  let ?B = "replicate 65535 7 @ replicate 4294901760 (0 :: u8)"
  let ?d1 = "devBig\<lparr>bufs := (bufs devBig)(3 \<mapsto> ?B), trace := [MemcpyHostToDevice 3 0 65535]\<rparr>"
  let ?res = "hostBack\<lparr>data_host := replicate 65535 7 @ replicate 4294967297 (1 :: u8)\<rparr>"
  let ?d2 = "?d1\<lparr>trace := [MemcpyHostToDevice 3 0 65535, MemcpyDeviceToHost 3 0 65535]\<rparr>"
  have vh: "valid_host hostBig" "valid_host hostBack"
    by (simp_all add: valid_host_def hostBig_def hostBack_def)
  have dims: "width_host hostBig = width wideD" "height_host hostBig = height wideD"
    "width_host hostBack = width wideD" "height_host hostBack = height wideD"
    by (simp_all add: hostBig_def hostBack_def wideD_def)
  have to: "Convert_to_device devBig hostBig wideD = Some (Inr (), ?d1)"
    by (simp add: Convert_to_device_def Convert_to_device_rows.simps ParameterValidation_host_def
        ParameterValidation1_def empty_host_def empty_def cudaMemcpy_HostToDevice_def
        hostBig_def wideD_def devBig_def Let_def)
  have fro: "Convert_from_device ?d1 wideD hostBack = Some (Inr (), ?res, ?d2)"
    by (simp add: Convert_from_device_def Convert_from_device_rows.simps
        ParameterValidation_host_def ParameterValidation1_def empty_host_def empty_def
        cudaMemcpy_DeviceToHost_def hostBack_def wideD_def devBig_def Let_def)
  have px: "pixel_host hostBig 0 0 = 7" "pixel_host hostBig 1 0 = 7"
    "pixels ?d1 wideD ! 0 = 7" "pixels ?d1 wideD ! (1 * 65535 + 0) = 0"
    "pixel_host ?res 0 0 = 7" "pixel_host ?res 1 0 = 1"
    by (simp_all add: pixel_host_def pixels_def hostBig_def hostBack_def wideD_def nth_append)
  show ?thesis
    using valid_devBig(5) vh dims to fro px
    by (intro exI [of _ ?d1] exI [of _ ?d2] exI [of _ ?res]) simp
qed

theorem transfer_of_large_image_copies_one_row_witness:
  "\<not> empty_host hostBig \<and> \<not> empty wideD \<and> \<not> empty_host hostBack
   \<and> width_host hostBig = width wideD \<and> height_host hostBig = height wideD
   \<and> width wideD = width_host hostBack \<and> height wideD = height_host hostBack
   \<and> map_option fst (Convert_to_device devBig hostBig wideD) = Some (Inr ())
   \<and> (\<exists>d1. map_option snd (Convert_to_device devBig hostBig wideD) = Some d1
         \<and> map_option fst (Convert_from_device d1 wideD hostBack) = Some (Inr ()))"
proof -
  obtain d1 d2 res where run: "Convert_to_device devBig hostBig wideD = Some (Inr (), d1)"
    "Convert_from_device d1 wideD hostBack = Some (Inr (), res, d2)"
    and dims: "width_host hostBig = width wideD" "height_host hostBig = height wideD"
    "width_host hostBack = width wideD" "height_host hostBack = height wideD"
    using transfer_of_large_image_copies_one_row by blast
  have ne: "\<not> empty_host hostBig" "\<not> empty wideD" "\<not> empty_host hostBack"
    by (simp_all add: empty_host_def empty_def hostBig_def hostBack_def wideD_def)
  show ?thesis
    using run dims ne by simp
qed
subsection \<open>Algebraic laws\<close>

text \<open>
  On a valid device, for valid images \<open>A\<close> and \<open>B\<close> of any size, \<open>AbsoluteDifference\<close>,
  \<open>Maximum\<close> and \<open>Minimum\<close> return the same result for \<open>(A, B)\<close> and for \<open>(B, A)\<close>: the same
  failure, or the same image and the same device memory.
\<close>

lemma commutative:
  assumes "valid_device d" and "valid_image d A" and "valid_image d B"
  shows "AbsoluteDifference d A B = AbsoluteDifference d B A"
    and "Maximum d A B = Maximum d B A"
    and "Minimum d A B = Minimum d B A"
proof -
  show "AbsoluteDifference d A B = AbsoluteDifference d B A"
    unfolding AbsoluteDifference_binary by (rule binary_alloc_commute [OF assms]) auto
  show "Maximum d A B = Maximum d B A"
    unfolding Maximum_binary by (rule binary_alloc_commute [OF assms]) auto
  show "Minimum d A B = Minimum d B A"
    unfolding Minimum_binary by (rule binary_alloc_commute [OF assms]) auto
qed

text \<open>
  Images of fewer than \<open>2^32\<close> pixels. When \<open>Maximum\<close> or \<open>Minimum\<close> of \<open>(A, A)\<close> returns an
  image, its pixels are those of \<open>A\<close>; when \<open>Minimum\<close> and \<open>Maximum\<close> of \<open>(A, B)\<close> return
  images, both have \<open>width * height\<close> pixels and every pixel of the minimum is at most
  the pixel of the maximum at the same index. The three operations do return an image
  when the images have the same dimensions, the device has the memory and there are at
  most \<open>2^32 - 256\<close> pixels.
\<close>

lemma idempotent_below_2_32:
  assumes "valid_device d" and "valid_image d A" and "valid_image d B"
    and "unat (width A) * unat (height A) < 2 ^ 32"
  shows "(Maximum d A A = (Inr out, d') \<longrightarrow> pixels d' out = pixels d A)
       \<and> (Minimum d A A = (Inr out, d') \<longrightarrow> pixels d' out = pixels d A)
       \<and> (Minimum d A B = (Inr out, d') \<and> Maximum d A B = (Inr out', d'') \<longrightarrow>
            length (pixels d' out) = unat (width A) * unat (height A)
            \<and> length (pixels d'' out') = unat (width A) * unat (height A)
            \<and> (\<forall>i < unat (width A) * unat (height A). pixels d' out ! i \<le> pixels d'' out' ! i))
       \<and> (unat (width A) * unat (height A) \<le> free_bytes d
            \<and> unat (width A) * unat (height A) \<le> 2 ^ 32 - 256 \<longrightarrow>
            (\<exists>res. fst (Maximum d A A) = Inr res) \<and> (\<exists>res. fst (Minimum d A A) = Inr res))
       \<and> (width A = width B \<and> height A = height B
            \<and> unat (width A) * unat (height A) \<le> free_bytes d
            \<and> unat (width A) * unat (height A) \<le> 2 ^ 32 - 256 \<longrightarrow>
            (\<exists>res. fst (AbsoluteDifference d A B) = Inr res)
            \<and> (\<exists>res. fst (Maximum d A B) = Inr res)
            \<and> (\<exists>res. fst (Minimum d A B) = Inr res))"
proof (intro conjI impI)
  show "pixels d' out = pixels d A" if "Maximum d A A = (Inr out, d')"
    using binary_alloc_pixels(1) [OF assms(1,2,2,4) that [unfolded Maximum_binary]]
    by (simp add: map2_same)
  show "pixels d' out = pixels d A" if "Minimum d A A = (Inr out, d')"
    using binary_alloc_pixels(1) [OF assms(1,2,2,4) that [unfolded Minimum_binary]]
    by (simp add: map2_same)
next
  assume "Minimum d A B = (Inr out, d') \<and> Maximum d A B = (Inr out', d'')"
  hence mn: "Minimum d A B = (Inr out, d')" and mx: "Maximum d A B = (Inr out', d'')"
    by simp_all
  note n = binary_alloc_pixels [OF assms mn [unfolded Minimum_binary]]
  note x = binary_alloc_pixels [OF assms mx [unfolded Maximum_binary]]
  show "length (pixels d' out) = unat (width A) * unat (height A)"
    by (simp add: n(1,2,3))
  show "length (pixels d'' out') = unat (width A) * unat (height A)"
    by (simp add: x(1,2,3))
  show "\<forall>i < unat (width A) * unat (height A). pixels d' out ! i \<le> pixels d'' out' ! i"
    by (auto simp add: n(1,2,3) x(1))
next
  assume a: "unat (width A) * unat (height A) \<le> free_bytes d
            \<and> unat (width A) * unat (height A) \<le> 2 ^ 32 - 256"
  show "\<exists>res. fst (Maximum d A A) = Inr res"
    unfolding Maximum_binary by (intro binary_alloc_returns [OF assms(1,2,2)]) (use a in simp_all)
  show "\<exists>res. fst (Minimum d A A) = Inr res"
    unfolding Minimum_binary by (intro binary_alloc_returns [OF assms(1,2,2)]) (use a in simp_all)
next
  assume "width A = width B \<and> height A = height B
            \<and> unat (width A) * unat (height A) \<le> free_bytes d
            \<and> unat (width A) * unat (height A) \<le> 2 ^ 32 - 256"
  hence a: "width A = width B" "height A = height B"
    "unat (width A) * unat (height A) \<le> 2 ^ 32 - 256"
    "unat (width A) * unat (height A) \<le> free_bytes d"
    by blast+
  show "\<exists>res. fst (AbsoluteDifference d A B) = Inr res"
    unfolding AbsoluteDifference_binary by (rule binary_alloc_returns [OF assms(1,2,3) a])
  show "\<exists>res. fst (Maximum d A B) = Inr res"
    unfolding Maximum_binary by (rule binary_alloc_returns [OF assms(1,2,3) a])
  show "\<exists>res. fst (Minimum d A B) = Inr res"
    unfolding Minimum_binary by (rule binary_alloc_returns [OF assms(1,2,3) a])
qed

text \<open>
  The lemmas on the example device, whose images have 3 pixels.
\<close>

lemma commutative_and_idempotent_example:
  "valid_device dev1 \<and> valid_image dev1 imgA \<and> valid_image dev1 imgB
   \<and> fst (AbsoluteDifference dev1 imgB imgA) = Inr \<lparr>width = 3, height = 1, data = Some 4\<rparr>
   \<and> pixels (snd (AbsoluteDifference dev1 imgB imgA)) \<lparr>width = 3, height = 1, data = Some 4\<rparr> =
       [245, 20, 140]
   \<and> fst (Maximum dev1 imgA imgA) = Inr \<lparr>width = 3, height = 1, data = Some 4\<rparr>
   \<and> pixels (snd (Maximum dev1 imgA imgA)) \<lparr>width = 3, height = 1, data = Some 4\<rparr> = [10, 20, 30]
   \<and> pixels (snd (Minimum dev1 imgA imgB)) \<lparr>width = 3, height = 1, data = Some 4\<rparr> ! 2
       \<le> pixels (snd (Maximum dev1 imgA imgB)) \<lparr>width = 3, height = 1, data = Some 4\<rparr> ! 2"
proof -
  let ?out = "\<lparr>width = 3, height = 1, data = Some 4\<rparr>"
  have ad: "fst (AbsoluteDifference dev1 imgA imgB) = Inr ?out"
    "pixels (snd (AbsoluteDifference dev1 imgA imgB)) ?out = [245, 20, 140]"
    by (simp_all add: AbsoluteDifference_def AbsoluteDifference_inplace_def absoluteDifference_def
        eval_defs)
  have mx: "Maximum dev1 imgA imgA = (Inr ?out, snd (Maximum dev1 imgA imgA))"
    "Maximum dev1 imgA imgB = (Inr ?out, snd (Maximum dev1 imgA imgB))"
    by (simp_all add: prod_eq_iff Maximum_def Maximum_inplace_def maximum_def eval_defs)
  have mn: "Minimum dev1 imgA imgB = (Inr ?out, snd (Minimum dev1 imgA imgB))"
    by (simp add: prod_eq_iff Minimum_def Minimum_inplace_def minimum_def eval_defs)
  have small: "unat (width imgA) * unat (height imgA) < 2 ^ 32"
    by (simp add: imgA_def)
  note t = idempotent_below_2_32 [OF valid_dev1(1,2,3) small]
  have 1: "AbsoluteDifference dev1 imgB imgA = AbsoluteDifference dev1 imgA imgB"
    using commutative(1) [OF valid_dev1(1,2,3)] by simp
  have 2: "pixels (snd (Maximum dev1 imgA imgA)) ?out = pixels dev1 imgA"
    using t [of ?out "snd (Maximum dev1 imgA imgA)"] mx(1) by simp
  have n: "(2 :: nat) < unat (width imgA) * unat (height imgA)"
    by (simp add: imgA_def)
  have 3: "pixels (snd (Minimum dev1 imgA imgB)) ?out ! 2
             \<le> pixels (snd (Maximum dev1 imgA imgB)) ?out ! 2"
    using t [of ?out "snd (Minimum dev1 imgA imgB)" ?out "snd (Maximum dev1 imgA imgB)"] mn mx(2) n
    by blast
  have "fst (Maximum dev1 imgA imgA) = Inr ?out"
    using mx(1) by (simp add: prod_eq_iff)
  thus ?thesis
    using ad 1 2 3 valid_dev1(1,2,3) pixels_dev1(1) by simp
qed

text \<open>
  C7. \<open>Maximum\<close> and \<open>Minimum\<close> are meant to be idempotent on every valid image: the result
  of \<open>(A, A)\<close> is \<open>A\<close>. They are not on images of \<open>2^32\<close> pixels or more. \<open>A\<close> is a valid image
  of 65537 x 65537 pixels, all 5; the device has the memory for another one. \<open>Maximum\<close>
  and \<open>Minimum\<close> of \<open>(A, A)\<close> return an image of 65537 x 65537 pixels. Its pixel 131072 is
  5, the pixel of \<open>A\<close>; its pixel 131073, the first one past the \<^verbatim>\<open>uint32_t\<close> element count,
  is the uninitialised byte of the allocation, here 0, and the pixel of \<open>A\<close> there is 5.
  The in-place forms, with an output image \<open>C\<close> of the same size, all 9, return normally
  and leave 9 in pixel 131073 of \<open>C\<close>.
\<close>

theorem Maximum_of_large_image_with_itself:
  "valid_image devBig bigA
   \<and> unat (width bigA) * unat (height bigA) \<le> free_bytes devBig
   \<and> pixels devBig bigA ! 131072 = 5 \<and> pixels devBig bigA ! 131073 = 5
   \<and> fst (Maximum devBig bigA bigA) = Inr \<lparr>width = 65537, height = 65537, data = Some 4\<rparr>
   \<and> pixels (snd (Maximum devBig bigA bigA)) \<lparr>width = 65537, height = 65537, data = Some 4\<rparr>
       ! 131072 = 5
   \<and> pixels (snd (Maximum devBig bigA bigA)) \<lparr>width = 65537, height = 65537, data = Some 4\<rparr>
       ! 131073 = 0
   \<and> fst (Minimum devBig bigA bigA) = Inr \<lparr>width = 65537, height = 65537, data = Some 4\<rparr>
   \<and> pixels (snd (Minimum devBig bigA bigA)) \<lparr>width = 65537, height = 65537, data = Some 4\<rparr>
       ! 131073 = 0
   \<and> valid_image devBig bigC \<and> width bigA = width bigC \<and> height bigA = height bigC
   \<and> fst (Maximum_inplace devBig bigA bigA bigC) = Inr ()
   \<and> pixels (snd (Maximum_inplace devBig bigA bigA bigC)) bigC ! 131072 = 5
   \<and> pixels (snd (Maximum_inplace devBig bigA bigA bigC)) bigC ! 131073 = 9
   \<and> fst (Minimum_inplace devBig bigA bigA bigC) = Inr ()
   \<and> pixels (snd (Minimum_inplace devBig bigA bigA bigC)) bigC ! 131073 = 9"
proof -
  let ?out = "\<lparr>width = 65537, height = 65537, data = Some 4\<rparr>"
  have dims: "width bigA = 65537" "height bigA = 65537"
    "width bigC = 65537" "height bigC = 65537" "data bigC = Some 2"
    by (simp_all add: bigA_def bigC_def)
  have inplace: "binary_inplace name f devBig bigA bigA bigC =
      (Inr (), devBig\<lparr>trace := trace devBig @ [Launch name
                  (snd (getKernelParameters (65537 * 65537))) (fst (getKernelParameters (65537 * 65537)))],
         bufs := (bufs devBig)(2 \<mapsto> progress f (replicate 4295098369 5) (replicate 4295098369 5)
                                      (replicate 4295098369 9) 131073)\<rparr>)" for name f
    unfolding binary_inplace_eq [OF valid_devBig(2,2,4)] dims pixels_devBig count_big
    by simp
  have C: "pixels (snd (binary_inplace name f devBig bigA bigA bigC)) bigC =
             progress f (replicate 4295098369 5) (replicate 4295098369 5)
               (replicate 4295098369 9) 131073" for name f
    unfolding inplace by (simp add: pixels_def dims)
  have pc: "progress f (replicate 4295098369 5) (replicate 4295098369 5)
              (replicate 4295098369 9) 131073 ! 131072 = f 5 5"
    "progress f (replicate 4295098369 5) (replicate 4295098369 5)
              (replicate 4295098369 9) 131073 ! 131073 = 9" for f
    by (simp_all add: progress_nth)
  have dev: "next_ptr devBig = 4" "free_bytes devBig = 2 ^ 34" "uninit devBig = (\<lambda>_. 0)"
    by (simp_all add: devBig_def)
  have alloc: "binary_alloc name f devBig bigA bigA =
      (Inr ?out, devBig\<lparr>bufs := (bufs devBig)(4 \<mapsto>
                   progress f (replicate 4295098369 5) (replicate 4295098369 5)
                     (map (\<lambda>_. 0) [0..<4295098369]) 131073),
                 next_ptr := 5, free_bytes := 2 ^ 34 - 4295098369,
                 trace := trace devBig @ [Malloc 4 4295098369, Launch name
                  (snd (getKernelParameters (65537 * 65537)))
                  (fst (getKernelParameters (65537 * 65537)))]\<rparr>)" for name f
    unfolding binary_alloc_eq [OF valid_devBig(1,2,2)] dims pixels_devBig count_big dev Let_def
    by simp
  have px: "progress f (replicate 4295098369 5) (replicate 4295098369 5)
              (map (\<lambda>_. 0) [0..<4295098369]) 131073 ! 131072 = f 5 5"
    "progress f (replicate 4295098369 5) (replicate 4295098369 5)
              (map (\<lambda>_. 0) [0..<4295098369]) 131073 ! 131073 = 0" for f
    by (simp_all add: progress_nth uninit_nth del: upt_rec_numeral)
  have A: "pixels devBig bigA ! 131072 = 5" "pixels devBig bigA ! 131073 = 5"
    by (simp_all add: pixels_devBig)
  have out: "pixels (snd (binary_alloc name f devBig bigA bigA)) ?out =
               progress f (replicate 4295098369 5) (replicate 4295098369 5)
                 (map (\<lambda>_. 0) [0..<4295098369]) 131073" for name f
    unfolding alloc by (simp add: pixels_def)
  have "unat (width bigA) * unat (height bigA) \<le> free_bytes devBig"
    by (simp add: dims dev)
  thus ?thesis
    unfolding Maximum_binary Minimum_binary Maximum_inplace_binary Minimum_inplace_binary
      out px C pc
    using valid_devBig(2,4) A by (simp add: alloc inplace dims)
qed
subsection \<open>Frame\<close>

text \<open>
  C8, as stated: no operation mutates an input buffer. The in-place forms accept the same
  image as input and as output: \<open>Invert\<close> of the 1 x 1 image \<open>[7]\<close> into itself succeeds
  and leaves \<open>[248]\<close> in the buffer of its input.
\<close>

theorem Invert_in_place_overwrites_input:
  "valid_device dev1 \<and> valid_image dev1 imgC
   \<and> fst (Invert_inplace dev1 imgC imgC) = Inr ()
   \<and> pixels dev1 imgC = [7]
   \<and> pixels (snd (Invert_inplace dev1 imgC imgC)) imgC = [248]"
proof -
  have "fst (Invert_inplace dev1 imgC imgC) = Inr ()"
    and "pixels (snd (Invert_inplace dev1 imgC imgC)) imgC = [248]"
    by (simp_all add: Invert_inplace_def invert_def eval_defs)
  thus ?thesis
    using valid_dev1(1,4) pixels_dev1(3) by simp
qed

text \<open>
  C8, amended. Every operation on valid images writes the buffer of its output image
  only. After an in-place form, whether it succeeded or failed, every image whose buffer
  is not the output's buffer has the pixels it had before: so has every input that is not
  the output image itself. After an allocating form on a valid device every valid image
  has the pixels it had before: an allocating form never mutates an input. A kernel
  thread whose \<^verbatim>\<open>id\<close> is not below \<open>sz\<close> returns the memory as it was.
\<close>

theorem only_output_written:
  "(valid_image d in1 \<and> valid_image d in2 \<and> valid_image d out \<and> data img \<noteq> data out \<longrightarrow>
      pixels (snd (AbsoluteDifference_inplace d in1 in2 out)) img = pixels d img
      \<and> pixels (snd (BitwiseAnd_inplace d in1 in2 out)) img = pixels d img
      \<and> pixels (snd (BitwiseOr_inplace d in1 in2 out)) img = pixels d img
      \<and> pixels (snd (BitwiseXor_inplace d in1 in2 out)) img = pixels d img
      \<and> pixels (snd (GammaCorrection_inplace lut d in1 out a gamma)) img = pixels d img
      \<and> pixels (snd (Invert_inplace d in1 out)) img = pixels d img
      \<and> pixels (snd (Maximum_inplace d in1 in2 out)) img = pixels d img
      \<and> pixels (snd (Minimum_inplace d in1 in2 out)) img = pixels d img
      \<and> pixels (snd (Subtract_inplace d in1 in2 out)) img = pixels d img)
   \<and> (valid_device d \<and> valid_image d in1 \<and> valid_image d in2 \<and> valid_image d img \<longrightarrow>
      pixels (snd (AbsoluteDifference d in1 in2)) img = pixels d img
      \<and> pixels (snd (BitwiseAnd d in1 in2)) img = pixels d img
      \<and> pixels (snd (BitwiseOr d in1 in2)) img = pixels d img
      \<and> pixels (snd (BitwiseXor d in1 in2)) img = pixels d img
      \<and> pixels (snd (GammaCorrection lut d in1 a gamma)) img = pixels d img
      \<and> pixels (snd (Invert d in1)) img = pixels d img
      \<and> pixels (snd (Maximum d in1 in2)) img = pixels d img
      \<and> pixels (snd (Minimum d in1 in2)) img = pixels d img
      \<and> pixels (snd (Subtract d in1 in2)) img = pixels d img)
   \<and> (\<not> blockDim * blockIdx + threadIdx < sz \<longrightarrow>
      absoluteDifference p1 p2 po sz blockDim blockIdx threadIdx m = Some m
      \<and> bitwiseAnd p1 p2 po sz blockDim blockIdx threadIdx m = Some m
      \<and> bitwiseOr p1 p2 po sz blockDim blockIdx threadIdx m = Some m
      \<and> bitwiseXor p1 p2 po sz blockDim blockIdx threadIdx m = Some m
      \<and> gammaCorrection tbl p1 po sz blockDim blockIdx threadIdx m = Some m
      \<and> invert p1 po sz blockDim blockIdx threadIdx m = Some m
      \<and> maximum p1 p2 po sz blockDim blockIdx threadIdx m = Some m
      \<and> minimum p1 p2 po sz blockDim blockIdx threadIdx m = Some m
      \<and> subtract p1 p2 po sz blockDim blockIdx threadIdx m = Some m)"
proof (intro conjI impI)
  assume "\<not> blockDim * blockIdx + threadIdx < sz"
  thus "absoluteDifference p1 p2 po sz blockDim blockIdx threadIdx m = Some m"
    and "bitwiseAnd p1 p2 po sz blockDim blockIdx threadIdx m = Some m"
    and "bitwiseOr p1 p2 po sz blockDim blockIdx threadIdx m = Some m"
    and "bitwiseXor p1 p2 po sz blockDim blockIdx threadIdx m = Some m"
    and "gammaCorrection tbl p1 po sz blockDim blockIdx threadIdx m = Some m"
    and "invert p1 po sz blockDim blockIdx threadIdx m = Some m"
    and "maximum p1 p2 po sz blockDim blockIdx threadIdx m = Some m"
    and "minimum p1 p2 po sz blockDim blockIdx threadIdx m = Some m"
    and "subtract p1 p2 po sz blockDim blockIdx threadIdx m = Some m"
    by (simp_all add: absoluteDifference_def bitwiseAnd_def bitwiseOr_def bitwiseXor_def
        gammaCorrection_def invert_def maximum_def minimum_def subtract_def)
qed (simp_all add: AbsoluteDifference_inplace_binary BitwiseAnd_inplace_binary
    BitwiseOr_inplace_binary BitwiseXor_inplace_binary Maximum_inplace_binary
    Minimum_inplace_binary Subtract_inplace_binary Invert_inplace_unary unary_inplace_def
    binary_inplace_keeps GammaCorrection_inplace_keeps
    AbsoluteDifference_binary BitwiseAnd_binary BitwiseOr_binary BitwiseXor_binary Maximum_binary
    Minimum_binary Subtract_binary Invert_unary unary_alloc_def binary_alloc_keeps
    GammaCorrection_keeps)

theorem only_output_written_witness:
  "data imgB \<noteq> data imgA \<and> valid_device dev1 \<and> valid_image dev1 imgB
   \<and> fst (Invert_inplace dev1 imgA imgA) = Inr ()
   \<and> pixels (snd (Invert_inplace dev1 imgA imgA)) imgB = [255, 0, 170]
   \<and> fst (Maximum dev1 imgA imgB) = Inr \<lparr>width = 3, height = 1, data = Some 4\<rparr>
   \<and> pixels (snd (Maximum dev1 imgA imgB)) imgB = [255, 0, 170]
   \<and> \<not> (3 :: u32) * 0 + 1 < 1
   \<and> invert (Some 0) (Some 0) 1 3 0 1 (bufs dev1) = Some (bufs dev1)"
proof -
  have "fst (Invert_inplace dev1 imgA imgA) = Inr ()"
    and "fst (Maximum dev1 imgA imgB) = Inr \<lparr>width = 3, height = 1, data = Some 4\<rparr>"
    by (simp_all add: Invert_inplace_def invert_def Maximum_def Maximum_inplace_def maximum_def
        eval_defs)
  moreover have "data imgB \<noteq> data imgA" and "\<not> (3 :: u32) * 0 + 1 < 1"
    by (simp_all add: imgA_def imgB_def)
  ultimately show ?thesis
    using only_output_written [where img = imgB and out = imgA and d = dev1 and ?in1.0 = imgA
        and ?in2.0 = imgB and blockDim = 3 and blockIdx = 0 and threadIdx = 1 and sz = 1
        and ?p1.0 = "Some 0" and po = "Some 0" and m = "bufs dev1"]
      valid_dev1(1,2,3) pixels_dev1(2)
    by simp
qed

subsection \<open>One exception for every validation failure\<close>

text \<open>
  C9. The three kinds of validation failure cannot be told apart: an empty image, a
  mismatch of dimensions, and a negative \<open>a\<close> or \<open>gamma\<close> all yield the exception
  \<open>imageException ''Bad input parameters in image function''\<close>, in each overload of
  \<open>ParameterValidation\<close>, in \<open>GammaCorrection\<close>, and so in every operation that fails its
  validation; so do the two transfers when the device image is empty or its dimensions
  are not those of the host image.
\<close>

theorem validation_failures_alike:
  "(empty img1 \<longrightarrow>
      ParameterValidation1 img1 = Inl (imageException ''Bad input parameters in image function''))
   \<and> (empty img1 \<or> empty img2 \<or> width img1 \<noteq> width img2 \<or> height img1 \<noteq> height img2 \<longrightarrow>
      ParameterValidation2 img1 img2 =
        Inl (imageException ''Bad input parameters in image function''))
   \<and> (empty img1 \<or> empty img2 \<or> empty img3 \<or> width img1 \<noteq> width img2
        \<or> height img1 \<noteq> height img2 \<or> width img1 \<noteq> width img3 \<or> height img1 \<noteq> height img3 \<longrightarrow>
      ParameterValidation3 img1 img2 img3 =
        Inl (imageException ''Bad input parameters in image function''))
   \<and> (less_zero a \<or> less_zero gamma \<longrightarrow>
      GammaCorrection_inplace lut d img1 img2 a gamma =
        (Inl (imageException ''Bad input parameters in image function''), d))
   \<and> (ParameterValidation3 img1 img2 img3 \<noteq> Inr () \<longrightarrow>
      AbsoluteDifference_inplace d img1 img2 img3 = (Inl bad_input, d)
      \<and> BitwiseAnd_inplace d img1 img2 img3 = (Inl bad_input, d)
      \<and> BitwiseOr_inplace d img1 img2 img3 = (Inl bad_input, d)
      \<and> BitwiseXor_inplace d img1 img2 img3 = (Inl bad_input, d)
      \<and> Maximum_inplace d img1 img2 img3 = (Inl bad_input, d)
      \<and> Minimum_inplace d img1 img2 img3 = (Inl bad_input, d)
      \<and> Subtract_inplace d img1 img2 img3 = (Inl bad_input, d))
   \<and> (ParameterValidation2 img1 img2 \<noteq> Inr () \<longrightarrow>
      AbsoluteDifference d img1 img2 = (Inl bad_input, d)
      \<and> BitwiseAnd d img1 img2 = (Inl bad_input, d)
      \<and> BitwiseOr d img1 img2 = (Inl bad_input, d)
      \<and> BitwiseXor d img1 img2 = (Inl bad_input, d)
      \<and> Maximum d img1 img2 = (Inl bad_input, d)
      \<and> Minimum d img1 img2 = (Inl bad_input, d)
      \<and> Subtract d img1 img2 = (Inl bad_input, d)
      \<and> Invert_inplace d img1 img2 = (Inl bad_input, d)
      \<and> GammaCorrection_inplace lut d img1 img2 a gamma = (Inl bad_input, d))
   \<and> (ParameterValidation1 img1 \<noteq> Inr () \<longrightarrow>
      Invert d img1 = (Inl bad_input, d)
      \<and> GammaCorrection lut d img1 a gamma = (Inl bad_input, d))
   \<and> (\<not> empty_host host
        \<and> (empty img1 \<or> width_host host \<noteq> width img1 \<or> height_host host \<noteq> height img1) \<longrightarrow>
      Convert_to_device d host img1 = Some (Inl bad_input, d)
      \<and> Convert_from_device d img1 host = Some (Inl bad_input, host, d))"
proof -
  have 1: "ParameterValidation1 img1 \<noteq> Inr () \<Longrightarrow> ParameterValidation1 img1 = Inl bad_input"
    by (simp add: ParameterValidation1_def split: if_splits)
  have 2: "ParameterValidation2 img1 img2 \<noteq> Inr () \<Longrightarrow> ParameterValidation2 img1 img2 = Inl bad_input"
    by (simp add: ParameterValidation2_def split: if_splits)
  have 3: "ParameterValidation3 img1 img2 img3 \<noteq> Inr () \<Longrightarrow>
             ParameterValidation3 img1 img2 img3 = Inl bad_input"
    by (simp add: ParameterValidation3_def split: if_splits)
  have 4: "Convert_to_device d host img1 = Some (Inl bad_input, d)"
    "Convert_from_device d img1 host = Some (Inl bad_input, host, d)"
    if "\<not> empty_host host
        \<and> (empty img1 \<or> width_host host \<noteq> width img1 \<or> height_host host \<noteq> height img1)"
    using that
    by (auto simp add: Convert_to_device_def Convert_from_device_def ParameterValidation_host_def
        ParameterValidation1_def)
  show ?thesis
  proof (intro conjI impI)
    show "empty img1 \<Longrightarrow> ParameterValidation1 img1 = Inl bad_input"
      by (simp add: ParameterValidation1_def)
    show "empty img1 \<or> empty img2 \<or> width img1 \<noteq> width img2 \<or> height img1 \<noteq> height img2 \<Longrightarrow>
            ParameterValidation2 img1 img2 = Inl bad_input"
      by (auto simp add: ParameterValidation2_def)
    show "empty img1 \<or> empty img2 \<or> empty img3 \<or> width img1 \<noteq> width img2
            \<or> height img1 \<noteq> height img2 \<or> width img1 \<noteq> width img3 \<or> height img1 \<noteq> height img3 \<Longrightarrow>
            ParameterValidation3 img1 img2 img3 = Inl bad_input"
      by (auto simp add: ParameterValidation3_def)
    show "less_zero a \<or> less_zero gamma \<Longrightarrow>
            GammaCorrection_inplace lut d img1 img2 a gamma = (Inl bad_input, d)"
      by (rule GammaCorrection_inplace_negative)
  qed (simp_all add: 1 2 3 4 AbsoluteDifference_def AbsoluteDifference_inplace_def BitwiseAnd_def
        BitwiseAnd_inplace_def BitwiseOr_def BitwiseOr_inplace_def BitwiseXor_def
        BitwiseXor_inplace_def Maximum_def Maximum_inplace_def Minimum_def Minimum_inplace_def
        Subtract_def Subtract_inplace_def Invert_def Invert_inplace_def GammaCorrection_def
        GammaCorrection_inplace_def)
qed

theorem validation_failures_alike_witness:
  "empty img0 \<and> \<not> empty imgA \<and> \<not> empty imgC \<and> width imgA \<noteq> width imgC \<and> less_zero (Finite (- 1))
   \<and> ParameterValidation1 img0 = ParameterValidation2 imgA imgC
   \<and> Invert dev1 img0 = (Inl bad_input, dev1)
   \<and> Invert_inplace dev1 imgA imgC = (Inl bad_input, dev1)
   \<and> GammaCorrection_inplace lut_id dev1 imgA imgB (Finite (- 1)) (Finite 1) = (Inl bad_input, dev1)"
  using validation_failures_alike [where ?img1.0 = img0 and a = "Finite (- 1)" and gamma = "Finite 1"
      and lut = lut_id and d = dev1]
    validation_failures_alike [where ?img1.0 = imgA and ?img2.0 = imgC and a = "Finite (- 1)"
      and gamma = "Finite 1" and lut = lut_id and d = dev1]
    validation_failures_alike [where ?img1.0 = imgA and ?img2.0 = imgB and a = "Finite (- 1)"
      and gamma = "Finite 1" and lut = lut_id and d = dev1]
  by (simp add: empty_def imgA_def imgB_def imgC_def img0_def)


subsection \<open>The table of GammaCorrection\<close>

text \<open>
  What the table \<^verbatim>\<open>value[256]\<close> of \<open>gammaCorrection\<close> holds (C4, C10) is the result of
  IEEE-754 arithmetic on \<open>a\<close> and \<open>gamma\<close>. This development does not model that
  arithmetic: the table is the parameter \<open>lut\<close> of the kernel, and the properties above
  hold for every table.
\<close>

end
